theory Spec2Isabelle
  imports Main
begin

section \<open>Conversation history (GeminiService.sendMessage, history clean-up)\<close>

text \<open>
  A turn of the conversation history as \<^verbatim>\<open>ChatScreen\<close> builds it and as the
  remote chat API takes it: \<^verbatim>\<open>{ role, parts: [{ text }] }\<close>. The parameter is typed
  \<^verbatim>\<open>any[]\<close>, so the role is any string.
\<close>

record turn =
  role :: string
  parts :: string

text \<open>
  The callback of \<^verbatim>\<open>validHistory.filter((msg, index) => ...)\<close>. It reads
  \<^verbatim>\<open>validHistory[index - 1]\<close> while \<^verbatim>\<open>validHistory\<close> still names the array being
  filtered (the assignment happens after \<^verbatim>\<open>filter\<close> returns), so \<open>vh\<close> is the
  unfiltered array.
\<close>

definition keepTurn :: "turn list \<Rightarrow> nat \<times> turn \<Rightarrow> bool" where
  "keepTurn vh = (\<lambda>(index, msg).
     if index = 0 then role msg = ''user''
     else (let prevRole = role (vh ! (index - 1))
           in (prevRole = ''user'' \<and> role msg = ''model'') \<or>
              (prevRole = ''model'' \<and> role msg = ''user'')))"

definition normalizeHistory :: "turn list \<Rightarrow> turn list" where
  "normalizeHistory conversationHistory =
     (if length conversationHistory > 0 then
        (let validHistory =
           (if role (conversationHistory ! 0) = ''model''
            then drop 1 conversationHistory else conversationHistory)
         in map snd (filter (keepTurn validHistory) (enumerate 0 validHistory)))
      else conversationHistory)"

text \<open>
  What the clean-up is meant to establish: the roles start with \<open>user\<close> and strictly
  alternate \<open>user\<close>, \<open>model\<close>, \<open>user\<close>, ...
\<close>

definition flipRole :: "string \<Rightarrow> string" where
  "flipRole r = (if r = ''user'' then ''model'' else ''user'')"

fun alternatesFrom :: "string \<Rightarrow> string list \<Rightarrow> bool" where
  "alternatesFrom r [] = True"
| "alternatesFrom r (x # xs) = (x = r \<and> alternatesFrom (flipRole r) xs)"

definition wellFormedHistory :: "turn list \<Rightarrow> bool" where
  "wellFormedHistory h = alternatesFrom ''user'' (map role h)"

text \<open>The filter, read as a scan that carries the previous turn of the unfiltered array.\<close>

fun scanTurns :: "string \<Rightarrow> turn list \<Rightarrow> turn list" where
  "scanTurns prevRole [] = []"
| "scanTurns prevRole (msg # rest) =
     (if (prevRole = ''user'' \<and> role msg = ''model'') \<or>
         (prevRole = ''model'' \<and> role msg = ''user'')
      then msg # scanTurns (role msg) rest
      else scanTurns (role msg) rest)"

section \<open>Record Store (DatabaseService, database.ts)\<close>

text \<open>
  Instants are milliseconds since the epoch (\<^verbatim>\<open>Date.now()\<close>, \<^verbatim>\<open>getTime()\<close>). A
  JavaScript \<^verbatim>\<open>Date\<close> is an instant or the Invalid Date, on which
  \<^verbatim>\<open>toISOString()\<close> throws a RangeError. The store keeps dates as the ISO-8601 text
  of \<^verbatim>\<open>toISOString()\<close>; the model keeps the instant, whose order is the order of
  those texts (for the four-digit years that \<^verbatim>\<open>toISOString\<close> prints at fixed width).
\<close>

type_synonym instant = int
type_synonym jsDate = "instant option"

text \<open>
  What a store operation throws: the guard \<^verbatim>\<open>if (!this.db) throw new Error('Database
  not initialized')\<close>, the RangeError of \<^verbatim>\<open>toISOString\<close>, the PRIMARY KEY constraint
  of the \<^verbatim>\<open>id\<close> column, or any other failure of the SQLite driver with its message.
\<close>

datatype db_error = NotInitialized | InvalidTime | UniqueViolation | DriverFailure string

fun errorMessage :: "db_error \<Rightarrow> string" where
  "errorMessage NotInitialized = ''Database not initialized''"
| "errorMessage InvalidTime = ''Invalid time value''"
| "errorMessage UniqueViolation = ''UNIQUE constraint failed''"
| "errorMessage (DriverFailure m) = m"

text \<open>
  The rows of the four tables. The \<^verbatim>\<open>id\<close> of a transaction, schedule or journal
  entry is \<^verbatim>\<open>Date.now().toString()\<close>: the model keeps the number that is printed.
  Amounts are whole numbers here (JavaScript adds them as doubles, exactly so below
  \<open>2^53\<close>).
\<close>

record transaction_row =
  t_id :: instant
  t_amount :: int
  t_type :: string
  t_category :: string
  t_description :: string
  t_date :: instant

record schedule_row =
  s_id :: instant
  s_title :: string
  s_description :: string
  s_date :: instant
  s_time :: string
  s_reminder :: int

record journal_row =
  j_id :: instant
  j_content :: string
  j_mood :: string
  j_date :: instant

record chat_row =
  c_id :: string
  c_text :: string
  c_isUser :: bool
  c_timestamp :: instant
  c_persona :: string

text \<open>The arguments of the create operations: \<^verbatim>\<open>Omit<Transaction, 'id'>\<close> and so on.\<close>

record transaction_input =
  ti_amount :: int
  ti_type :: string
  ti_category :: string
  ti_description :: "string option"
  ti_date :: jsDate

record schedule_input =
  si_title :: string
  si_description :: "string option"
  si_date :: jsDate
  si_time :: string
  si_reminder :: "int option"

record journal_input =
  ji_content :: string
  ji_mood :: string
  ji_date :: jsDate

record chat_message =
  cm_id :: string
  cm_text :: string
  cm_isUser :: bool
  cm_timestamp :: jsDate
  cm_persona :: "string option"

text \<open>
  The service object: \<open>handle\<close> says that \<^verbatim>\<open>this.db\<close> is not null, the tables hold
  their rows in insertion (rowid) order.
\<close>

record database =
  handle :: bool
  initialized :: bool
  transactions :: "transaction_row list"
  schedules :: "schedule_row list"
  journal_entries :: "journal_row list"
  chat_messages :: "chat_row list"

text \<open>
  Every operation takes the outcome of each driver call it makes (\<^verbatim>\<open>runAsync\<close>,
  \<^verbatim>\<open>getAllAsync\<close>, \<^verbatim>\<open>execAsync\<close>): \<open>None\<close> when the driver succeeds, \<open>Some m\<close>
  when it throws an error with message \<open>m\<close>. It returns what the caller gets (\<open>Inl\<close>
  the error thrown, \<open>Inr\<close> the value returned) and the store afterwards.
\<close>

type_synonym io = "string option"

text \<open>JavaScript \<^verbatim>\<open>a || b\<close> on an optional string and on an optional number.\<close>

definition orEmpty :: "string option \<Rightarrow> string" where
  "orEmpty s = (case s of None \<Rightarrow> '''' | Some t \<Rightarrow> t)"

definition orZero :: "int option \<Rightarrow> int" where
  "orZero n = (case n of None \<Rightarrow> 0 | Some k \<Rightarrow> k)"

text \<open>\<^verbatim>\<open>init\<close>: opens the database, then creates the tables.\<close>

definition init :: "io \<Rightarrow> io \<Rightarrow> database \<Rightarrow> (db_error + unit) \<times> database" where
  "init ioOpen ioExec d =
     (if initialized d then (Inr (), d)
      else (case ioOpen of
              Some m \<Rightarrow> (Inl (DriverFailure m), d)
            | None \<Rightarrow>
               (case ioExec of
                  Some m \<Rightarrow> (Inl (DriverFailure m), d\<lparr>handle := True\<rparr>)
                | None \<Rightarrow> (Inr (), d\<lparr>handle := True, initialized := True\<rparr>))))"

subsection \<open>Transactions\<close>

definition addTransaction ::
  "io \<Rightarrow> instant \<Rightarrow> transaction_input \<Rightarrow> database \<Rightarrow> (db_error + instant) \<times> database" where
  "addTransaction io now transaction d =
     (if \<not> handle d then (Inl NotInitialized, d)
      else (let id = now in
        (case ti_date transaction of
           None \<Rightarrow> (Inl InvalidTime, d)
         | Some date \<Rightarrow>
            (case io of
               Some m \<Rightarrow> (Inl (DriverFailure m), d)
             | None \<Rightarrow>
                if id \<in> set (map t_id (transactions d)) then (Inl UniqueViolation, d)
                else (Inr id, d\<lparr>transactions := transactions d @
                   [\<lparr>t_id = id, t_amount = ti_amount transaction, t_type = ti_type transaction,
                     t_category = ti_category transaction,
                     t_description = orEmpty (ti_description transaction),
                     t_date = date\<rparr>]\<rparr>)))))"

text \<open>
  \<^verbatim>\<open>SELECT * FROM transactions ORDER BY date DESC\<close>. Rows with equal dates come in an
  order SQL leaves open; the model keeps them in insertion order (a stable sort).
\<close>

definition getTransactions :: "io \<Rightarrow> database \<Rightarrow> (db_error + transaction_row list) \<times> database" where
  "getTransactions io d =
     (if \<not> handle d then (Inl NotInitialized, d)
      else (case io of
              Some m \<Rightarrow> (Inr [], d)
            | None \<Rightarrow> (Inr (sort_key (\<lambda>row. - t_date row) (transactions d)), d)))"

definition deleteTransaction :: "io \<Rightarrow> instant \<Rightarrow> database \<Rightarrow> (db_error + unit) \<times> database" where
  "deleteTransaction io rowId d =
     (if \<not> handle d then (Inl NotInitialized, d)
      else (case io of
              Some m \<Rightarrow> (Inl (DriverFailure m), d)
            | None \<Rightarrow> (Inr (), d\<lparr>transactions := filter (\<lambda>row. t_id row \<noteq> rowId) (transactions d)\<rparr>)))"

subsection \<open>Schedules\<close>

definition addSchedule ::
  "io \<Rightarrow> instant \<Rightarrow> schedule_input \<Rightarrow> database \<Rightarrow> (db_error + instant) \<times> database" where
  "addSchedule io now schedule d =
     (if \<not> handle d then (Inl NotInitialized, d)
      else (let id = now in
        (case si_date schedule of
           None \<Rightarrow> (Inl InvalidTime, d)
         | Some date \<Rightarrow>
            (case io of
               Some m \<Rightarrow> (Inl (DriverFailure m), d)
             | None \<Rightarrow>
                if id \<in> set (map s_id (schedules d)) then (Inl UniqueViolation, d)
                else (Inr id, d\<lparr>schedules := schedules d @
                   [\<lparr>s_id = id, s_title = si_title schedule,
                     s_description = orEmpty (si_description schedule),
                     s_date = date, s_time = si_time schedule,
                     s_reminder = orZero (si_reminder schedule)\<rparr>]\<rparr>)))))"

text \<open>\<^verbatim>\<open>SELECT * FROM schedules ORDER BY date ASC\<close>.\<close>

definition getSchedules :: "io \<Rightarrow> database \<Rightarrow> (db_error + schedule_row list) \<times> database" where
  "getSchedules io d =
     (if \<not> handle d then (Inl NotInitialized, d)
      else (case io of
              Some m \<Rightarrow> (Inr [], d)
            | None \<Rightarrow> (Inr (sort_key s_date (schedules d)), d)))"

definition deleteSchedule :: "io \<Rightarrow> instant \<Rightarrow> database \<Rightarrow> (db_error + unit) \<times> database" where
  "deleteSchedule io rowId d =
     (if \<not> handle d then (Inl NotInitialized, d)
      else (case io of
              Some m \<Rightarrow> (Inl (DriverFailure m), d)
            | None \<Rightarrow> (Inr (), d\<lparr>schedules := filter (\<lambda>row. s_id row \<noteq> rowId) (schedules d)\<rparr>)))"

subsection \<open>Journal entries\<close>

definition addJournalEntry ::
  "io \<Rightarrow> instant \<Rightarrow> journal_input \<Rightarrow> database \<Rightarrow> (db_error + instant) \<times> database" where
  "addJournalEntry io now entry d =
     (if \<not> handle d then (Inl NotInitialized, d)
      else (let id = now in
        (case ji_date entry of
           None \<Rightarrow> (Inl InvalidTime, d)
         | Some date \<Rightarrow>
            (case io of
               Some m \<Rightarrow> (Inl (DriverFailure m), d)
             | None \<Rightarrow>
                if id \<in> set (map j_id (journal_entries d)) then (Inl UniqueViolation, d)
                else (Inr id, d\<lparr>journal_entries := journal_entries d @
                   [\<lparr>j_id = id, j_content = ji_content entry, j_mood = ji_mood entry,
                     j_date = date\<rparr>]\<rparr>)))))"

definition getJournalEntries :: "io \<Rightarrow> database \<Rightarrow> (db_error + journal_row list) \<times> database" where
  "getJournalEntries io d =
     (if \<not> handle d then (Inl NotInitialized, d)
      else (case io of
              Some m \<Rightarrow> (Inr [], d)
            | None \<Rightarrow> (Inr (sort_key (\<lambda>row. - j_date row) (journal_entries d)), d)))"

definition deleteJournalEntry :: "io \<Rightarrow> instant \<Rightarrow> database \<Rightarrow> (db_error + unit) \<times> database" where
  "deleteJournalEntry io rowId d =
     (if \<not> handle d then (Inl NotInitialized, d)
      else (case io of
              Some m \<Rightarrow> (Inl (DriverFailure m), d)
            | None \<Rightarrow>
               (Inr (), d\<lparr>journal_entries := filter (\<lambda>row. j_id row \<noteq> rowId) (journal_entries d)\<rparr>)))"

subsection \<open>Chat messages\<close>

text \<open>
  \<^verbatim>\<open>SELECT id FROM chat_messages ORDER BY timestamp DESC LIMIT 100\<close>, and the
  statement \<^verbatim>\<open>DELETE FROM chat_messages WHERE id NOT IN (...)\<close> built on it.
\<close>

definition newest100 :: "chat_row list \<Rightarrow> chat_row list" where
  "newest100 rows = take 100 (sort_key (\<lambda>row. - c_timestamp row) rows)"

definition trimChat :: "chat_row list \<Rightarrow> chat_row list" where
  "trimChat rows = filter (\<lambda>row. c_id row \<in> set (map c_id (newest100 rows))) rows"

text \<open>
  \<^verbatim>\<open>addChatMessage\<close> makes two driver calls, the INSERT and the DELETE, outside any
  SQL transaction: when the DELETE throws, the inserted row stays.
\<close>

definition addChatMessage ::
  "io \<Rightarrow> io \<Rightarrow> chat_message \<Rightarrow> database \<Rightarrow> (db_error + unit) \<times> database" where
  "addChatMessage ioInsert ioDelete message d =
     (if \<not> handle d then (Inl NotInitialized, d)
      else (case cm_timestamp message of
           None \<Rightarrow> (Inl InvalidTime, d)
         | Some timestamp \<Rightarrow>
            (case ioInsert of
               Some m \<Rightarrow> (Inl (DriverFailure m), d)
             | None \<Rightarrow>
                if cm_id message \<in> set (map c_id (chat_messages d)) then (Inl UniqueViolation, d)
                else (let inserted = chat_messages d @
                        [\<lparr>c_id = cm_id message, c_text = cm_text message,
                          c_isUser = cm_isUser message, c_timestamp = timestamp,
                          c_persona = orEmpty (cm_persona message)\<rparr>]
                      in (case ioDelete of
                            Some m \<Rightarrow> (Inl (DriverFailure m), d\<lparr>chat_messages := inserted\<rparr>)
                          | None \<Rightarrow> (Inr (), d\<lparr>chat_messages := trimChat inserted\<rparr>))))))"

definition getChatMessages :: "io \<Rightarrow> database \<Rightarrow> (db_error + chat_row list) \<times> database" where
  "getChatMessages io d =
     (if \<not> handle d then (Inl NotInitialized, d)
      else (case io of
              Some m \<Rightarrow> (Inr [], d)
            | None \<Rightarrow> (Inr (newest100 (chat_messages d)), d)))"

definition clearAllData :: "io \<Rightarrow> database \<Rightarrow> (db_error + unit) \<times> database" where
  "clearAllData io d =
     (if \<not> handle d then (Inl NotInitialized, d)
      else (case io of
              Some m \<Rightarrow> (Inl (DriverFailure m), d)
            | None \<Rightarrow> (Inr (), d\<lparr>transactions := [], schedules := [], journal_entries := [],
                                   chat_messages := []\<rparr>)))"

text \<open>The PRIMARY KEY of the chat table, as an invariant of its rows.\<close>

definition chatKeysDistinct :: "database \<Rightarrow> bool" where
  "chatKeysDistinct d = distinct (map c_id (chat_messages d))"

text \<open>A store that holds exactly 100 chat messages, with timestamps 0 to 99.\<close>

definition sampleChat :: "chat_row list" where
  "sampleChat = map (\<lambda>i. \<lparr>c_id = replicate (Suc i) CHR ''m'', c_text = ''hello'',
       c_isUser = even i, c_timestamp = int i, c_persona = ''GENERAL''\<rparr>) [0..<100]"

definition sampleStore :: database where
  "sampleStore = \<lparr>handle = True, initialized = True, transactions = [], schedules = [],
     journal_entries = [], chat_messages = sampleChat\<rparr>"

definition sampleMessage :: chat_message where
  "sampleMessage = \<lparr>cm_id = ''new'', cm_text = ''hi'', cm_isUser = True,
     cm_timestamp = Some 100, cm_persona = None\<rparr>"

text \<open>
  A store with two transactions of September 2020 (instant 1600000000000 is
  2020-09-13T12:26:40Z) and one schedule item.
\<close>

definition sampleLedger :: database where
  "sampleLedger = \<lparr>handle = True, initialized = True,
     transactions =
       [\<lparr>t_id = 1600000000000, t_amount = 500, t_type = ''expense'', t_category = ''Rent'',
         t_description = ''September rent'', t_date = 1600000000000\<rparr>,
        \<lparr>t_id = 1600000500000, t_amount = 900, t_type = ''income'', t_category = ''Salary'',
         t_description = ''Part-time pay'', t_date = 1600000500000\<rparr>],
     schedules =
       [\<lparr>s_id = 1600000600000, s_title = ''Dentist'', s_description = '''',
         s_date = 1600041600000, s_time = ''10:30'', s_reminder = 15\<rparr>],
     journal_entries =
       [\<lparr>j_id = 1600000700000, j_content = ''Long day'', j_mood = ''calm'',
         j_date = 1600000700000\<rparr>],
     chat_messages = []\<rparr>"

section \<open>Rate limiting (GeminiService.waitForRateLimit)\<close>

text \<open>
  The fields of the service that \<^verbatim>\<open>waitForRateLimit\<close> reads and writes, and the
  clock \<^verbatim>\<open>Date.now()\<close>. A \<^verbatim>\<open>setTimeout(resolve, waitTime)\<close> that is awaited moves
  the clock forward by \<open>waitTime\<close> (a timer that fires exactly when due; a late timer
  only waits longer).
\<close>

record governor =
  clock :: instant
  lastRequestTime :: instant
  quotaResetTime :: instant

definition minRequestInterval :: int where
  "minRequestInterval = 3000"

text \<open>
  One call of \<^verbatim>\<open>waitForRateLimit\<close> that runs alone, from its first line to its
  return. \<open>now\<close> is read once, before the cooldown wait, and used again after it.
\<close>

definition waitForRateLimit :: "'a governor_scheme \<Rightarrow> 'a governor_scheme" where
  "waitForRateLimit g =
     (let now = clock g;
          g1 = (if quotaResetTime g > now
                then (let waitTime = quotaResetTime g - now
                      in g\<lparr>clock := clock g + waitTime, quotaResetTime := 0\<rparr>)
                else g);
          timeSinceLastRequest = now - lastRequestTime g1;
          g2 = (if timeSinceLastRequest < minRequestInterval
                then (let waitTime = minRequestInterval - timeSinceLastRequest
                      in g1\<lparr>clock := clock g1 + waitTime\<rparr>)
                else g1)
      in g2\<lparr>lastRequestTime := clock g2\<rparr>)"

subsection \<open>Calls that overlap\<close>

text \<open>
  \<^verbatim>\<open>sendMessage\<close> awaits \<^verbatim>\<open>waitForRateLimit\<close> directly; \<^verbatim>\<open>queueRequest\<close> and
  \<^verbatim>\<open>processQueue\<close> have no caller. So several calls can be inside
  \<^verbatim>\<open>waitForRateLimit\<close> at once, each suspended at one of its two awaits. JavaScript
  runs each stretch of code between two awaits without interruption, so a call is
  modelled by these stretches: \<open>enter\<close> (from the first line to the first await
  reached, or to the return), and \<open>resume\<close> (from a timer that fired to the next
  await, or to the return). A pending timer records when it is due, the call that
  waits for it and where that call continues.
\<close>

datatype stage = AfterQuotaWait instant | AfterSpacingWait

record timer =
  due :: instant
  owner :: nat
  stage :: stage

text \<open>
  The scheduler state: the service fields, the pending timers in the order they were
  set, and the log of the calls that have returned from \<^verbatim>\<open>waitForRateLimit\<close> with
  the clock at that moment. A call that returns goes on to send its request to the
  remote model straight away, nothing else is awaited before.
\<close>

type_synonym sched = "governor \<times> timer list \<times> (nat \<times> instant) list"

text \<open>The last line: \<^verbatim>\<open>this.lastRequestTime = Date.now()\<close>, then the return.\<close>

definition finish :: "nat \<Rightarrow> sched \<Rightarrow> sched" where
  "finish i = (\<lambda>(g, timers, permits).
     (g\<lparr>lastRequestTime := clock g\<rparr>, timers, permits @ [(i, clock g)]))"

text \<open>The spacing check, with the \<open>now\<close> read at entry.\<close>

definition spacing :: "nat \<Rightarrow> instant \<Rightarrow> sched \<Rightarrow> sched" where
  "spacing i now = (\<lambda>(g, timers, permits).
     (let timeSinceLastRequest = now - lastRequestTime g
      in if timeSinceLastRequest < minRequestInterval
         then (let waitTime = minRequestInterval - timeSinceLastRequest
               in (g, timers @ [\<lparr>due = clock g + waitTime, owner = i, stage = AfterSpacingWait\<rparr>],
                   permits))
         else finish i (g, timers, permits)))"

definition enter :: "nat \<Rightarrow> sched \<Rightarrow> sched" where
  "enter i = (\<lambda>(g, timers, permits).
     (let now = clock g
      in if quotaResetTime g > now
         then (let waitTime = quotaResetTime g - now
               in (g, timers @ [\<lparr>due = clock g + waitTime, owner = i, stage = AfterQuotaWait now\<rparr>],
                   permits))
         else spacing i now (g, timers, permits)))"

definition resume :: "timer \<Rightarrow> sched \<Rightarrow> sched" where
  "resume t = (\<lambda>(g, timers, permits).
     (case stage t of
        AfterQuotaWait now \<Rightarrow> spacing (owner t) now (g\<lparr>quotaResetTime := 0\<rparr>, timers, permits)
      | AfterSpacingWait \<Rightarrow> finish (owner t) (g, timers, permits)))"

text \<open>
  The timer that fires next: the earliest due, and among timers due at the same
  instant the one set first.
\<close>

fun earliest :: "timer list \<Rightarrow> timer option" where
  "earliest [] = None"
| "earliest (t # ts) =
     (case earliest ts of
        None \<Rightarrow> Some t
      | Some u \<Rightarrow> if due u < due t then Some u else Some t)"

definition fire :: "sched \<Rightarrow> sched option" where
  "fire = (\<lambda>(g, timers, permits).
     (case earliest timers of
        None \<Rightarrow> None
      | Some t \<Rightarrow> Some (resume t (g\<lparr>clock := max (clock g) (due t)\<rparr>, remove1 t timers, permits))))"

text \<open>
  What can happen: a caller invokes \<^verbatim>\<open>sendMessage\<close> (which enters
  \<^verbatim>\<open>waitForRateLimit\<close> at once), the next timer fires, or time passes with no timer
  due. A run is a sequence of these; it is \<open>None\<close> when the sequence cannot happen
  (a timer event with no timer pending, or time passing beyond a pending timer).
\<close>

datatype event = Call nat | Timer | Elapse nat

fun run :: "event list \<Rightarrow> sched \<Rightarrow> sched option" where
  "run [] s = Some s"
| "run (Call i # es) s = run es (enter i s)"
| "run (Timer # es) s = (case fire s of None \<Rightarrow> None | Some s' \<Rightarrow> run es s')"
| "run (Elapse n # es) (g, timers, permits) =
     (if list_ex (\<lambda>t. due t \<le> clock g + int n) timers then None
      else run es (g\<lparr>clock := clock g + int n\<rparr>, timers, permits))"

text \<open>Successive permits at least \<open>gap\<close> apart.\<close>

fun spaced :: "int \<Rightarrow> instant list \<Rightarrow> bool" where
  "spaced gap (a # b # rest) = (b - a \<ge> gap \<and> spaced gap (b # rest))"
| "spaced gap _ = True"

section \<open>The service and what it talks to (GeminiService)\<close>

subsection \<open>Tool calls, results and actions\<close>

text \<open>
  \<^verbatim>\<open>call.args\<close> is untyped in the source. The model types it by the parameter
  schemas of the eight tool declarations: one record with the arguments of all of them,
  of which a handler reads its own. \<open>description\<close> is optional (the schedule tool does
  not require it). A call that breaks its schema ends in the driver rejecting the row,
  which is one of the driver failures.
\<close>

record call_args =
  arg_type :: string
  arg_amount :: int
  arg_category :: string
  arg_description :: "string option"
  arg_title :: string
  arg_date :: string
  arg_time :: string
  arg_duration :: int
  arg_content :: string
  arg_mood :: string
  arg_period :: string
  arg_query :: string

record functionCall =
  call_name :: string
  call_args :: call_args

text \<open>
  The \<open>result\<close> handed back to the model for one call. Plain strings are kept as
  they are; a template that prints numbers or a JSON object is kept as the values that
  fill it:
  \<^item> \<open>TransactionLogged amount category\<close> for
    \<^verbatim>\<open>`Transaction logged: ${amount} for ${category}`\<close> (with the rupee sign),
  \<^item> \<open>MeetingScheduled title date time\<close> for
    \<^verbatim>\<open>`Meeting scheduled: ${title} on ${date} at ${time}`\<close>,
  \<^item> \<open>JournalSaved mood\<close> for \<^verbatim>\<open>`Journal entry saved with ${mood} mood`\<close>,
  \<^item> \<open>FinancesJson\<close>, \<open>ScheduleJson\<close>, \<open>JournalsJson\<close> for the three
    \<^verbatim>\<open>JSON.stringify({...})\<close> summaries, fields in source order.
\<close>

datatype tool_result =
    Text string
  | TransactionLogged int string
  | MeetingScheduled string string string
  | JournalSaved string
  | FinancesJson int int int nat
  | ScheduleJson nat nat "schedule_row list"
  | JournalsJson nat "(string \<times> nat) list" "journal_row list"

type_synonym functionResponse = "string \<times> tool_result"

datatype action_type =
  TransactionAction | ScheduleAction | JournalAction | QuoteAction | SearchAction | NoAction

record agenticAction =
  action_type :: action_type
  action_data :: call_args
  executed :: bool

subsection \<open>The remote model\<close>

text \<open>
  What goes out to the remote model: \<^verbatim>\<open>chat.sendMessage(userMessage)\<close> on a chat
  started with a persona and a history, \<^verbatim>\<open>chat.sendMessage(functionResponses)\<close>, and
  \<^verbatim>\<open>model.generateContent(prompt)\<close>. What comes back: a response with its text and
  its function calls (none: the empty list), or an error thrown with its message.
\<close>

datatype request =
    ChatStart string "turn list" string
  | ChatFollowUp "functionResponse list"
  | GenerateContent string

datatype outcome = Reply string "functionCall list" | Failure string

text \<open>
  The world of the service: its own fields (the governor, the two caches), the store,
  and the surroundings, which the code does not control and the model takes as given:
  the answer \<open>remote n\<close> and the duration \<open>latency n\<close> of the \<open>n\<close>-th request sent,
  the outcome \<open>driver n\<close> of the \<open>n\<close>-th store operation, and what
  \<^verbatim>\<open>new Date(string)\<close> makes of a string. \<open>requests\<close> logs every request sent, with
  the clock at that moment.
\<close>

record world = governor +
  quoteCache :: "(string \<times> instant) option"
  searchCache :: "string \<rightharpoonup> string \<times> instant"
  store :: database
  requests :: "(instant \<times> request) list"
  remote :: "nat \<Rightarrow> outcome"
  latency :: "nat \<Rightarrow> nat"
  driver :: "nat \<Rightarrow> io"
  driverCalls :: nat
  parseDate :: "string \<Rightarrow> jsDate"

definition quoteCacheDuration :: int where
  "quoteCacheDuration = 3600000"

definition searchCacheDuration :: int where
  "searchCacheDuration = 1800000"

definition callRemote :: "request \<Rightarrow> world \<Rightarrow> outcome \<times> world" where
  "callRemote req w =
     (let n = length (requests w)
      in (remote w n,
          w\<lparr>clock := clock w + int (latency w n), requests := requests w @ [(clock w, req)]\<rparr>))"

text \<open>A store operation run by the service: it takes the next driver outcome.\<close>

definition withStore ::
  "(io \<Rightarrow> database \<Rightarrow> (db_error + 'a) \<times> database) \<Rightarrow> world \<Rightarrow> (db_error + 'a) \<times> world" where
  "withStore operation w =
     (let (r, d) = operation (driver w (driverCalls w)) (store w)
      in (r, w\<lparr>store := d, driverCalls := Suc (driverCalls w)\<rparr>))"

subsection \<open>Strings\<close>

text \<open>
  \<^verbatim>\<open>String.prototype.includes\<close>, \<^verbatim>\<open>toLowerCase\<close> (on the ASCII letters) and the
  messages of the source. A character outside ASCII is written as its UTF-8 bytes.
\<close>

fun startsWith :: "string \<Rightarrow> string \<Rightarrow> bool" where
  "startsWith s [] = True"
| "startsWith [] (p # ps) = False"
| "startsWith (c # cs) (p # ps) = (c = p \<and> startsWith cs ps)"

fun jsIncludes :: "string \<Rightarrow> string \<Rightarrow> bool" where
  "jsIncludes [] sub = (sub = [])"
| "jsIncludes (c # cs) sub = (startsWith (c # cs) sub \<or> jsIncludes cs sub)"

definition toLowerCase :: "string \<Rightarrow> string" where
  "toLowerCase s = map (\<lambda>c. let n = (of_char c :: nat)
                            in if 65 \<le> n \<and> n \<le> 90 then char_of (n + 32) else c) s"

definition quotaMessage :: string where
  "quotaMessage = [CHR 0xE2, CHR 0x8F, CHR 0xB3] @
     '' I've hit my API quota. Please wait about a minute before trying again. This helps me manage my usage limits.''"

definition apiKeyMessage :: string where
  "apiKeyMessage = [CHR 0xF0, CHR 0x9F, CHR 0x94, CHR 0x91] @
     '' There's an issue with my API key. Please check that your EXPO_PUBLIC_GEMINI_API_KEY is set correctly in the .env file.''"

definition genericMessage :: "string \<Rightarrow> string" where
  "genericMessage errorMsg =
     ''I apologize, but I encountered an error: '' @ take 100 errorMsg @ ''. Please try again.''"

definition fallbackQuote :: string where
  "fallbackQuote = ''Every day is a new opportunity to grow. '' @
     [CHR 0xF0, CHR 0x9F, CHR 0x8C, CHR 0x9F]"

definition quotePrompt :: string where
  "quotePrompt = ''Generate an inspiring, motivational quote for an Indian user. Make it relevant to personal growth, productivity, or well-being. Keep it concise (1-2 sentences).''"

definition isQuotaError :: "string \<Rightarrow> bool" where
  "isQuotaError errorMsg =
     (jsIncludes errorMsg ''429'' \<or> jsIncludes errorMsg ''quota'' \<or>
      jsIncludes errorMsg ''RESOURCE_EXHAUSTED'')"

definition isAuthError :: "string \<Rightarrow> bool" where
  "isAuthError errorMsg =
     (jsIncludes errorMsg ''PERMISSION_DENIED'' \<or> jsIncludes errorMsg ''UNAUTHENTICATED'')"

subsection \<open>generateDailyQuote and performWebSearch\<close>

text \<open>
  Both check their cache, then wait for the rate limiter and ask the remote model.
  Neither throws: the \<^verbatim>\<open>catch\<close> of each returns a fixed text.
\<close>

definition generateDailyQuote :: "world \<Rightarrow> string \<times> world" where
  "generateDailyQuote w =
     (case (case quoteCache w of
              Some (text, timestamp) \<Rightarrow>
                if clock w - timestamp < quoteCacheDuration then Some text else None
            | None \<Rightarrow> None) of
        Some text \<Rightarrow> (text, w)
      | None \<Rightarrow>
         (let w1 = waitForRateLimit w;
              (result, w2) = callRemote (GenerateContent quotePrompt) w1
          in (case result of
                Reply quote calls \<Rightarrow> (quote, w2\<lparr>quoteCache := Some (quote, clock w2)\<rparr>)
              | Failure errorMsg \<Rightarrow> (fallbackQuote, w2))))"

definition searchPrompt :: "string \<Rightarrow> string" where
  "searchPrompt query = ''Provide information about: '' @ query"

definition performWebSearch :: "string \<Rightarrow> world \<Rightarrow> string \<times> world" where
  "performWebSearch query w =
     (let cacheKey = toLowerCase query
      in (case (case searchCache w cacheKey of
                  Some (text, timestamp) \<Rightarrow>
                    if clock w - timestamp < searchCacheDuration then Some text else None
                | None \<Rightarrow> None) of
            Some text \<Rightarrow> (text, w)
          | None \<Rightarrow>
             (let w1 = waitForRateLimit w;
                  (result, w2) = callRemote (GenerateContent (searchPrompt query)) w1
              in (case result of
                    Reply text calls \<Rightarrow>
                      (if text = [] then ''No information found.'' else text,
                       w2\<lparr>searchCache := (searchCache w2)(cacheKey \<mapsto> (text, clock w2))\<rparr>)
                  | Failure errorMsg \<Rightarrow>
                      if isQuotaError errorMsg
                      then (''I've hit my search quota. Please wait a couple of minutes before trying again.'',
                            w2\<lparr>quotaResetTime := clock w2 + 120000\<rparr>)
                      else (''Unable to search at this moment. Please try again later.'', w2)))))"

subsection \<open>The tool handlers\<close>

text \<open>
  The body of the \<^verbatim>\<open>functionCalls.map(async (call) => ...)\<close> callback: the
  \<^verbatim>\<open>switch\<close> on \<^verbatim>\<open>call.name\<close> inside its \<^verbatim>\<open>try\<close>, and the \<^verbatim>\<open>catch\<close> that
  turns whatever a handler throws into the result \<^verbatim>\<open>`Error: ${error.message}`\<close>.
  What a handler can throw is what its store operation throws. \<open>now\<close> is the clock
  when the round starts: every callback runs up to its first await before any of
  them continues, so the \<^verbatim>\<open>Date.now()\<close> of the ids and the \<^verbatim>\<open>new Date()\<close> of the
  rows are read then.
\<close>

definition caught :: "db_error \<Rightarrow> tool_result" where
  "caught e = Text (''Error: '' @ errorMessage e)"

definition moodCounts :: "journal_row list \<Rightarrow> (string \<times> nat) list" where
  "moodCounts journals =
     fold (\<lambda>entry acc.
        (case map_of acc (j_mood entry) of
           None \<Rightarrow> acc @ [(j_mood entry, 1)]
         | Some n \<Rightarrow> map (\<lambda>(k, v). if k = j_mood entry then (k, n + 1) else (k, v)) acc))
       journals []"

definition toolNames :: "string list" where
  "toolNames = [''logTransaction'', ''scheduleMeeting'', ''addJournalEntry'', ''getDailyQuote'',
     ''getUserFinances'', ''getUserSchedule'', ''getUserJournals'', ''searchWeb'']"

definition executeCall ::
  "instant \<Rightarrow> functionCall \<Rightarrow> world \<times> agenticAction list
     \<Rightarrow> functionResponse \<times> world \<times> agenticAction list" where
  "executeCall now call = (\<lambda>(w, executedActions).
     (let args = call_args call in
      if call_name call = ''logTransaction'' then
        (case withStore (\<lambda>io. addTransaction io now
                \<lparr>ti_amount = arg_amount args, ti_type = arg_type args,
                 ti_category = arg_category args, ti_description = arg_description args,
                 ti_date = Some now\<rparr>) w of
           (Inl e, w') \<Rightarrow> ((call_name call, caught e), w', executedActions)
         | (Inr rowId, w') \<Rightarrow>
             ((call_name call, TransactionLogged (arg_amount args) (arg_category args)), w',
              executedActions @
                [\<lparr>action_type = TransactionAction, action_data = args, executed = True\<rparr>]))
      else if call_name call = ''scheduleMeeting'' then
        (let scheduleDate = parseDate w (arg_date args) in
         case withStore (\<lambda>io. addSchedule io now
                \<lparr>si_title = arg_title args,
                 si_description = Some (orEmpty (arg_description args)),
                 si_date = scheduleDate, si_time = arg_time args,
                 si_reminder = Some 15\<rparr>) w of
           (Inl e, w') \<Rightarrow> ((call_name call, caught e), w', executedActions)
         | (Inr rowId, w') \<Rightarrow>
             ((call_name call,
               MeetingScheduled (arg_title args) (arg_date args) (arg_time args)), w',
              executedActions @
                [\<lparr>action_type = ScheduleAction, action_data = args, executed = True\<rparr>]))
      else if call_name call = ''addJournalEntry'' then
        (case withStore (\<lambda>io. addJournalEntry io now
                \<lparr>ji_content = arg_content args, ji_mood = arg_mood args,
                 ji_date = Some now\<rparr>) w of
           (Inl e, w') \<Rightarrow> ((call_name call, caught e), w', executedActions)
         | (Inr rowId, w') \<Rightarrow>
             ((call_name call, JournalSaved (arg_mood args)), w',
              executedActions @
                [\<lparr>action_type = JournalAction, action_data = args, executed = True\<rparr>]))
      else if call_name call = ''getDailyQuote'' then
        (let (quote, w') = generateDailyQuote w
         in ((call_name call, Text quote), w', executedActions))
      else if call_name call = ''getUserFinances'' then
        (case withStore getTransactions w of
           (Inl e, w') \<Rightarrow> ((call_name call, caught e), w', executedActions)
         | (Inr allTransactions, w') \<Rightarrow>
             (let totalIncome =
                    sum_list (map t_amount (filter (\<lambda>t. t_type t = ''income'') allTransactions));
                  totalExpense =
                    sum_list (map t_amount (filter (\<lambda>t. t_type t = ''expense'') allTransactions))
              in ((call_name call,
                   FinancesJson totalIncome totalExpense (totalIncome - totalExpense)
                     (length allTransactions)), w', executedActions)))
      else if call_name call = ''getUserSchedule'' then
        (case withStore getSchedules w of
           (Inl e, w') \<Rightarrow> ((call_name call, caught e), w', executedActions)
         | (Inr allSchedules, w') \<Rightarrow>
             ((call_name call,
               ScheduleJson (length (filter (\<lambda>s. s_date s > clock w') allSchedules))
                 (length allSchedules) (take 5 allSchedules)), w', executedActions))
      else if call_name call = ''getUserJournals'' then
        (case withStore getJournalEntries w of
           (Inl e, w') \<Rightarrow> ((call_name call, caught e), w', executedActions)
         | (Inr journals, w') \<Rightarrow>
             ((call_name call,
               JournalsJson (length journals) (moodCounts journals) (take 3 journals)),
              w', executedActions))
      else if call_name call = ''searchWeb'' then
        (let (searchResults, w') = performWebSearch (arg_query args) w
         in ((call_name call, Text searchResults), w', executedActions))
      else ((call_name call, Text ''Unknown function''), w, executedActions)))"

text \<open>
  One round: \<^verbatim>\<open>Promise.all(functionCalls.map(...))\<close>. The results come in the
  order of the calls. The model runs the callbacks one after the other in that order;
  that is the order in which their store operations are issued, and it is exact as
  long as a round holds at most one call (\<open>getDailyQuote\<close>, \<open>searchWeb\<close>) that waits
  for the rate limiter.
\<close>

fun executeCalls ::
  "instant \<Rightarrow> functionCall list \<Rightarrow> world \<times> agenticAction list
     \<Rightarrow> functionResponse list \<times> world \<times> agenticAction list" where
  "executeCalls now [] (w, executedActions) = ([], w, executedActions)"
| "executeCalls now (call # rest) (w, executedActions) =
     (let (response, w', actions') = executeCall now call (w, executedActions);
          (responses, w'', actions'') = executeCalls now rest (w', actions')
      in (response # responses, w'', actions''))"

subsection \<open>sendMessage\<close>

text \<open>
  The \<^verbatim>\<open>while (functionCalls && functionCalls.length > 0)\<close> loop, entered with the
  response just received. The remote model may ask for tools for ever, so the loop
  takes a bound on its rounds and is \<open>None\<close> when the bound is used up. Otherwise it
  ends in \<open>Inr\<close>, the \<^verbatim>\<open>return\<close> of the \<^verbatim>\<open>try\<close> block with the text and the
  executed actions, or in \<open>Inl\<close>, the error that \<^verbatim>\<open>chat.sendMessage\<close> threw; the
  actions executed up to that moment are kept beside it, in a variable that the
  \<^verbatim>\<open>catch\<close> block cannot see.
\<close>

fun agenticLoop ::
  "nat \<Rightarrow> outcome \<Rightarrow> world \<Rightarrow> agenticAction list
     \<Rightarrow> ((string \<times> agenticAction list + string \<times> agenticAction list) \<times> world) option" where
  "agenticLoop fuel (Failure errorMsg) w executedActions = Some (Inl (errorMsg, executedActions), w)"
| "agenticLoop fuel (Reply text []) w executedActions = Some (Inr (text, executedActions), w)"
| "agenticLoop 0 (Reply text (call # calls)) w executedActions = None"
| "agenticLoop (Suc fuel) (Reply text (call # calls)) w executedActions =
     (let (functionResponses, w', actions') =
            executeCalls (clock w) (call # calls) (w, executedActions);
          (response, w'') = callRemote (ChatFollowUp functionResponses) w'
      in agenticLoop fuel response w'' actions')"

definition tryBlock ::
  "nat \<Rightarrow> string \<Rightarrow> string \<Rightarrow> turn list \<Rightarrow> world
     \<Rightarrow> ((string \<times> agenticAction list + string \<times> agenticAction list) \<times> world) option" where
  "tryBlock fuel userMessage persona conversationHistory w =
     (let w1 = waitForRateLimit w;
          validHistory = normalizeHistory conversationHistory;
          (response, w2) = callRemote (ChatStart persona validHistory userMessage) w1
      in agenticLoop fuel response w2 [])"

record sendResult =
  result_text :: string
  result_actions :: "agenticAction list"

definition catchBlock :: "string \<Rightarrow> world \<Rightarrow> sendResult \<times> world" where
  "catchBlock errorMsg w =
     (if isQuotaError errorMsg
      then (\<lparr>result_text = quotaMessage, result_actions = []\<rparr>, w\<lparr>quotaResetTime := clock w + 60000\<rparr>)
      else if isAuthError errorMsg
      then (\<lparr>result_text = apiKeyMessage, result_actions = []\<rparr>, w)
      else (\<lparr>result_text = genericMessage errorMsg, result_actions = []\<rparr>, w))"

definition sendMessage ::
  "nat \<Rightarrow> string \<Rightarrow> string \<Rightarrow> turn list \<Rightarrow> world \<Rightarrow> (sendResult \<times> world) option" where
  "sendMessage fuel userMessage persona conversationHistory w =
     (case tryBlock fuel userMessage persona conversationHistory w of
        None \<Rightarrow> None
      | Some (Inr (responseText, executedActions), w') \<Rightarrow>
          Some (\<lparr>result_text = responseText, result_actions = executedActions\<rparr>, w')
      | Some (Inl (errorMsg, executedActions), w') \<Rightarrow> Some (catchBlock errorMsg w'))"

subsection \<open>Rows written and actions recorded\<close>

text \<open>
  \<open>extends old new\<close>: the list \<open>new\<close> is \<open>old\<close> with elements appended.
  \<open>accounted\<close> relates a state of the store and of the action log to a later one:
  every table has only grown at its end, the action log too, and the three tables
  that the tools write have grown by as many rows as actions of their kind were
  logged.
\<close>

definition extends :: "'a list \<Rightarrow> 'a list \<Rightarrow> bool" where
  "extends old new = (take (length old) new = old)"

definition countActions :: "action_type \<Rightarrow> agenticAction list \<Rightarrow> nat" where
  "countActions k as = length (filter (\<lambda>a. action_type a = k) as)"

definition accounted ::
  "world \<times> agenticAction list \<Rightarrow> world \<times> agenticAction list \<Rightarrow> bool" where
  "accounted = (\<lambda>(w, as) (w', as').
     extends as as' \<and>
     extends (transactions (store w)) (transactions (store w')) \<and>
     extends (schedules (store w)) (schedules (store w')) \<and>
     extends (journal_entries (store w)) (journal_entries (store w')) \<and>
     length (transactions (store w')) + countActions TransactionAction as
       = length (transactions (store w)) + countActions TransactionAction as' \<and>
     length (schedules (store w')) + countActions ScheduleAction as
       = length (schedules (store w)) + countActions ScheduleAction as' \<and>
     length (journal_entries (store w')) + countActions JournalAction as
       = length (journal_entries (store w)) + countActions JournalAction as')"

text \<open>The actions executed when the try block ended, either way.\<close>

fun actionsOf :: "string \<times> agenticAction list + string \<times> agenticAction list
    \<Rightarrow> agenticAction list" where
  "actionsOf (Inl (errorMsg, acts)) = acts"
| "actionsOf (Inr (replyText, acts)) = acts"

subsection \<open>Sample worlds\<close>

definition sampleArgs :: call_args where
  "sampleArgs = \<lparr>arg_type = ''expense'', arg_amount = 250, arg_category = ''Food'',
     arg_description = Some ''lunch'', arg_title = ''Review'', arg_date = ''2023-11-20'',
     arg_time = ''14:00'', arg_duration = 45, arg_content = ''Good day'', arg_mood = ''happy'',
     arg_period = ''today'', arg_query = ''weather''\<rparr>"

text \<open>
  A service that has been idle, on 2023-11-14 (instant 1700000000000), over the sample
  ledger of 2020; the remote model answers the \<open>n\<close>-th request with \<open>answers n\<close>
  after 800 ms, the driver never fails, and the only date string understood is
  \<open>2023-11-20\<close>.
\<close>

definition sampleWorld :: "(nat \<Rightarrow> outcome) \<Rightarrow> world" where
  "sampleWorld answers = \<lparr>clock = 1700000000000, lastRequestTime = 0, quotaResetTime = 0,
     quoteCache = None, searchCache = Map.empty, store = sampleLedger, requests = [],
     remote = answers, latency = (\<lambda>n. 800), driver = (\<lambda>n. None), driverCalls = 0,
     parseDate = (\<lambda>s. if s = ''2023-11-20'' then Some 1700438400000 else None)\<rparr>"

text \<open>
  A remote model that first asks for a transaction to be logged and then fails with
  a quota error; one that always answers with a text.
\<close>

definition failsSecond :: "nat \<Rightarrow> outcome" where
  "failsSecond n =
     (if n = 0 then Reply '''' [\<lparr>call_name = ''logTransaction'', call_args = sampleArgs\<rparr>]
      else Failure ''[429 Too Many Requests] RESOURCE_EXHAUSTED'')"

definition answersText :: "nat \<Rightarrow> outcome" where
  "answersText n = Reply ''Rise and shine.'' []"

section \<open>The history clean-up\<close>

lemma filter_keepTurn_scan:
  "pre \<noteq> [] \<Longrightarrow>
   map snd (filter (keepTurn (pre @ xs)) (enumerate (length pre) xs))
     = scanTurns (role (last pre)) xs"
proof (induction xs arbitrary: pre)
  case Nil
  then show ?case by simp
next
  case (Cons x xs)
  have step: "map snd (filter (keepTurn ((pre @ [x]) @ xs)) (enumerate (length (pre @ [x])) xs))
                = scanTurns (role (last (pre @ [x]))) xs"
    by (rule Cons.IH) simp
  have prev: "(pre @ x # xs) ! (length pre - 1) = last pre"
    using Cons.prems by (simp add: nth_append last_conv_nth)
  from step prev Cons.prems show ?case
    by (simp add: keepTurn_def Let_def)
qed

lemma filter_keepTurn_head:
  "map snd (filter (keepTurn (x # xs)) (enumerate 0 (x # xs)))
     = (if role x = ''user'' then [x] else []) @ scanTurns (role x) xs"
  using filter_keepTurn_scan [of "[x]" xs]
  by (simp add: keepTurn_def Let_def)

lemma scanTurns_alternates:
  "p = ''user'' \<or> p = ''model'' \<Longrightarrow>
   \<forall>t \<in> set xs. role t = ''user'' \<or> role t = ''model'' \<Longrightarrow>
   alternatesFrom (flipRole p) (map role (scanTurns p xs))"
proof (induction xs arbitrary: p)
  case Nil
  then show ?case by simp
next
  case (Cons x xs)
  from Cons.prems have rx: "role x = ''user'' \<or> role x = ''model''"
    and rest: "\<forall>t \<in> set xs. role t = ''user'' \<or> role t = ''model''" by simp_all
  have ih: "alternatesFrom (flipRole (role x)) (map role (scanTurns (role x) xs))"
    using rx rest by (rule Cons.IH)
  from Cons.prems(1) rx ih show ?case
    by (auto simp: flipRole_def)
qed

lemma normalizeHistory_Cons:
  "normalizeHistory (x # xs) =
     (if role x = ''model''
      then (case xs of [] \<Rightarrow> []
            | y # ys \<Rightarrow> (if role y = ''user'' then [y] else []) @ scanTurns (role y) ys)
      else (if role x = ''user'' then [x] else []) @ scanTurns (role x) xs)"
proof (cases "role x = ''model''")
  case False
  then have "normalizeHistory (x # xs)
               = map snd (filter (keepTurn (x # xs)) (enumerate 0 (x # xs)))"
    by (simp add: normalizeHistory_def Let_def del: enumerate_simps)
  also have "\<dots> = (if role x = ''user'' then [x] else []) @ scanTurns (role x) xs"
    by (rule filter_keepTurn_head)
  finally show ?thesis using False by simp
next
  case True
  show ?thesis
  proof (cases xs)
    case Nil
    with True show ?thesis by (simp add: normalizeHistory_def)
  next
    case (Cons y ys)
    have "normalizeHistory (x # y # ys)
            = map snd (filter (keepTurn (y # ys)) (enumerate 0 (y # ys)))"
      using True by (simp add: normalizeHistory_def Let_def del: enumerate_simps)
    also have "\<dots> = (if role y = ''user'' then [y] else []) @ scanTurns (role y) ys"
      by (rule filter_keepTurn_head)
    finally show ?thesis using True Cons by simp
  qed
qed

text \<open>
  On histories that hold only \<open>user\<close> and \<open>model\<close> turns (all that \<^verbatim>\<open>ChatScreen\<close>
  builds) the clean-up does establish the alternation, although the filter looks at
  the unfiltered predecessor.
\<close>

lemma normalizeHistory_two_roles:
  assumes "\<forall>t \<in> set h. role t = ''user'' \<or> role t = ''model''"
  shows "wellFormedHistory (normalizeHistory h)"
proof (cases h)
  case Nil
  then show ?thesis by (simp add: normalizeHistory_def wellFormedHistory_def)
next
  case (Cons x xs)
  from assms Cons have rx: "role x = ''user'' \<or> role x = ''model''"
    and rxs: "\<forall>t \<in> set xs. role t = ''user'' \<or> role t = ''model''" by simp_all
  show ?thesis
  proof (cases "role x = ''model''")
    case False
    with rx have ux: "role x = ''user''" by simp
    have "alternatesFrom (flipRole (role x)) (map role (scanTurns (role x) xs))"
      using rx rxs by (rule scanTurns_alternates)
    with Cons ux show ?thesis
      by (simp add: normalizeHistory_Cons wellFormedHistory_def flipRole_def)
  next
    case True
    show ?thesis
    proof (cases xs)
      case Nil
      with \<open>h = x # xs\<close> True show ?thesis
        by (simp add: normalizeHistory_Cons wellFormedHistory_def)
    next
      case (Cons y ys)
      from rxs Cons have ry: "role y = ''user'' \<or> role y = ''model''"
        and rys: "\<forall>t \<in> set ys. role t = ''user'' \<or> role t = ''model''" by simp_all
      have alt: "alternatesFrom (flipRole (role y)) (map role (scanTurns (role y) ys))"
        using ry rys by (rule scanTurns_alternates)
      from ry alt \<open>h = x # xs\<close> Cons True show ?thesis
        by (auto simp: normalizeHistory_Cons wellFormedHistory_def flipRole_def)
    qed
  qed
qed

text \<open>
  C1. The claim: for every input history, with arbitrary roles, the cleaned history
  starts with a \<open>user\<close> turn and strictly alternates \<open>user\<close>/\<open>model\<close>. The code misses
  it as soon as a turn has a third role (the chat API also knows \<open>function\<close>): the
  turn after it is compared with it and dropped, and the turn after that is compared
  with the dropped one and kept. Here the cleaned history is \<open>user\<close>, \<open>user\<close>; and
  \<open>function\<close>, \<open>user\<close>, \<open>model\<close> is cleaned to the single turn \<open>model\<close>.
\<close>

theorem normalizeHistory_third_role:
  "normalizeHistory
     [\<lparr>role = ''user'', parts = ''a''\<rparr>, \<lparr>role = ''function'', parts = ''b''\<rparr>,
      \<lparr>role = ''model'', parts = ''c''\<rparr>, \<lparr>role = ''user'', parts = ''d''\<rparr>]
     = [\<lparr>role = ''user'', parts = ''a''\<rparr>, \<lparr>role = ''user'', parts = ''d''\<rparr>]
   \<and> \<not> wellFormedHistory (normalizeHistory
     [\<lparr>role = ''user'', parts = ''a''\<rparr>, \<lparr>role = ''function'', parts = ''b''\<rparr>,
      \<lparr>role = ''model'', parts = ''c''\<rparr>, \<lparr>role = ''user'', parts = ''d''\<rparr>])
   \<and> normalizeHistory
     [\<lparr>role = ''function'', parts = ''a''\<rparr>, \<lparr>role = ''user'', parts = ''b''\<rparr>,
      \<lparr>role = ''model'', parts = ''c''\<rparr>]
     = [\<lparr>role = ''model'', parts = ''c''\<rparr>]"
  by (simp add: normalizeHistory_def keepTurn_def wellFormedHistory_def flipRole_def Let_def)

section \<open>The Record Store\<close>

subsection \<open>Chat retention\<close>

lemma newest100_length: "length (newest100 rows) \<le> 100"
  by (simp add: newest100_def)

lemma trimChat_distinct:
  "distinct (map c_id rows) \<Longrightarrow> distinct (map c_id (trimChat rows))"
  by (simp add: trimChat_def distinct_map_filter)

lemma trimChat_length:
  assumes "distinct (map c_id rows)"
  shows "length (trimChat rows) \<le> 100"
proof -
  have sub: "set (map c_id (trimChat rows)) \<subseteq> set (map c_id (newest100 rows))"
    by (auto simp: trimChat_def)
  have "length (trimChat rows) = length (map c_id (trimChat rows))" by simp
  also have "\<dots> = card (set (map c_id (trimChat rows)))"
    using trimChat_distinct [OF assms] by (simp only: distinct_card)
  also have "\<dots> \<le> card (set (map c_id (newest100 rows)))"
    using sub by (intro card_mono) simp_all
  also have "\<dots> \<le> length (map c_id (newest100 rows))"
    by (rule card_length)
  also have "\<dots> \<le> 100"
    using newest100_length [of rows] by simp
  finally show ?thesis .
qed

lemma addChatMessage_keys:
  assumes "chatKeysDistinct d" and "addChatMessage ioInsert ioDelete msg d = (r, d')"
  shows "chatKeysDistinct d'"
  using assms
  by (auto simp: addChatMessage_def chatKeysDistinct_def Let_def trimChat_distinct
      split: if_splits option.splits)

lemma addChatMessage_bound:
  assumes "chatKeysDistinct d" and "addChatMessage ioInsert ioDelete msg d = (Inr (), d')"
  shows "length (chat_messages d') \<le> 100"
proof -
  from assms(2) obtain ts where
    d': "d' = d\<lparr>chat_messages := trimChat (chat_messages d @
           [\<lparr>c_id = cm_id msg, c_text = cm_text msg, c_isUser = cm_isUser msg,
             c_timestamp = ts, c_persona = orEmpty (cm_persona msg)\<rparr>])\<rparr>"
    and fresh: "cm_id msg \<notin> set (map c_id (chat_messages d))"
    by (auto simp: addChatMessage_def Let_def split: if_splits option.splits)
  from assms(1) fresh have "distinct (map c_id (chat_messages d @
           [\<lparr>c_id = cm_id msg, c_text = cm_text msg, c_isUser = cm_isUser msg,
             c_timestamp = ts, c_persona = orEmpty (cm_persona msg)\<rparr>]))"
    by (simp add: chatKeysDistinct_def)
  from trimChat_length [OF this] d' show ?thesis by simp
qed

text \<open>
  With 101 rows, the statement deletes the row that the descending sort puts last.
\<close>

lemma sorted_last_max:
  "sorted (map f xs) \<Longrightarrow> x \<in> set xs \<Longrightarrow> f x \<le> f (last xs)"
proof (induction xs)
  case Nil
  then show ?case by simp
next
  case (Cons a xs)
  then show ?case by (cases xs) auto
qed

lemma trimChat_101:
  assumes len: "length rows = 101" and dist: "distinct (map c_id rows)"
  defines "victim \<equiv> last (sort_key (\<lambda>row. - c_timestamp row) rows)"
  shows "trimChat rows = filter (\<lambda>row. row \<noteq> victim) rows"
    and "victim \<in> set rows"
    and "\<forall>row \<in> set rows. c_timestamp victim \<le> c_timestamp row"
proof -
  let ?S = "sort_key (\<lambda>row. - c_timestamp row) rows"
  have lenS: "length ?S = 101" using len by simp
  have ne: "?S \<noteq> []"
  proof
    assume "?S = []"
    then have "length ?S = 0" by simp
    with lenS show False by simp
  qed
  have distS: "distinct ?S" using dist by (simp add: distinct_map)
  have t100: "take 100 ?S = butlast ?S"
    using lenS by (simp add: butlast_conv_take)
  have S: "?S = butlast ?S @ [victim]"
    using ne by (simp add: victim_def)
  show vin: "victim \<in> set rows"
    using last_in_set [OF ne] by (simp add: victim_def)
  have setb: "set (butlast ?S) = set rows - {victim}"
  proof -
    have "distinct (butlast ?S @ [victim])" using distS S by simp
    then have "victim \<notin> set (butlast ?S)" by simp
    moreover have "set rows = set (butlast ?S @ [victim])" using S by (metis set_sort)
    ultimately show ?thesis by auto
  qed
  have inj: "inj_on c_id (set rows)" using dist by (simp add: distinct_map)
  have keep: "c_id row \<in> c_id ` set (newest100 rows) \<longleftrightarrow> row \<noteq> victim"
    if "row \<in> set rows" for row
  proof -
    have "c_id row \<in> c_id ` (set rows - {victim}) \<longleftrightarrow> row \<in> set rows - {victim}"
      using inj that by (intro inj_on_image_mem_iff [where B = "set rows"]) auto
    with that setb t100 show ?thesis
      by (simp add: newest100_def)
  qed
  show "trimChat rows = filter (\<lambda>row. row \<noteq> victim) rows"
    unfolding trimChat_def by (rule filter_cong) (simp_all add: keep)
  have srt: "sorted (map (\<lambda>row. - c_timestamp row) ?S)" by simp
  show "\<forall>row \<in> set rows. c_timestamp victim \<le> c_timestamp row"
  proof
    fix row assume "row \<in> set rows"
    then have "row \<in> set ?S" by simp
    from sorted_last_max [OF srt this] show "c_timestamp victim \<le> c_timestamp row"
      by (simp add: victim_def)
  qed
qed

lemma length_filter_neq:
  "distinct xs \<Longrightarrow> v \<in> set xs \<Longrightarrow> Suc (length (filter (\<lambda>x. x \<noteq> v) xs)) = length xs"
proof (induction xs)
  case Nil
  then show ?case by simp
next
  case (Cons a xs)
  show ?case
  proof (cases "a = v")
    case True
    with Cons.prems have "v \<notin> set xs" by simp
    then have "filter (\<lambda>x. x \<noteq> v) xs = xs" by (auto simp: filter_id_conv)
    with True show ?thesis by simp
  next
    case False
    with Cons show ?thesis by simp
  qed
qed



subsection \<open>Failures of the store\<close>




section \<open>The rate limiter\<close>

lemma waitForRateLimit_clock: "clock g \<le> clock (waitForRateLimit g)"
  by (simp add: waitForRateLimit_def Let_def minRequestInterval_def)

lemma waitForRateLimit_last: "lastRequestTime (waitForRateLimit g) = clock (waitForRateLimit g)"
  by (simp add: waitForRateLimit_def Let_def)

lemma waitForRateLimit_cooldown: "quotaResetTime g \<le> clock (waitForRateLimit g)"
  by (simp add: waitForRateLimit_def Let_def minRequestInterval_def)

text \<open>
  Calls that do not overlap are spaced: a call that starts after the previous one
  returned returns at least the minimum interval after it.
\<close>

lemma waitForRateLimit_spacing:
  "lastRequestTime g \<le> clock g \<Longrightarrow>
   lastRequestTime g + minRequestInterval \<le> clock (waitForRateLimit g)"
  by (simp add: waitForRateLimit_def Let_def minRequestInterval_def)

text \<open>
  A call that is alone in the scheduler goes through the stretches of
  \<open>waitForRateLimit\<close> and ends as the function above says.
\<close>

lemma run_alone:
  "\<exists>es. run (Call i # es) (g, [], permits)
           = Some (waitForRateLimit g, [], permits @ [(i, clock (waitForRateLimit g))])"
proof -
  consider (none) "\<not> quotaResetTime g > clock g"
      "\<not> clock g - lastRequestTime g < minRequestInterval"
    | (space) "\<not> quotaResetTime g > clock g"
      "clock g - lastRequestTime g < minRequestInterval"
    | (quota) "quotaResetTime g > clock g"
      "\<not> clock g - lastRequestTime g < minRequestInterval"
    | (both) "quotaResetTime g > clock g"
      "clock g - lastRequestTime g < minRequestInterval"
    by blast
  then show ?thesis
  proof cases
    case none
    then have "run (Call i # []) (g, [], permits)
           = Some (waitForRateLimit g, [], permits @ [(i, clock (waitForRateLimit g))])"
      by (simp add: enter_def spacing_def finish_def waitForRateLimit_def Let_def)
    then show ?thesis by blast
  next
    case space
    then have "run (Call i # [Timer]) (g, [], permits)
           = Some (waitForRateLimit g, [], permits @ [(i, clock (waitForRateLimit g))])"
      by (simp add: enter_def spacing_def finish_def fire_def resume_def waitForRateLimit_def
          Let_def minRequestInterval_def max_def)
    then show ?thesis by blast
  next
    case quota
    then have "run (Call i # [Timer]) (g, [], permits)
           = Some (waitForRateLimit g, [], permits @ [(i, clock (waitForRateLimit g))])"
      by (simp add: enter_def spacing_def finish_def fire_def resume_def waitForRateLimit_def
          Let_def minRequestInterval_def max_def)
    then show ?thesis by blast
  next
    case both
    then have "run (Call i # [Timer, Timer]) (g, [], permits)
           = Some (waitForRateLimit g, [], permits @ [(i, clock (waitForRateLimit g))])"
      by (simp add: enter_def spacing_def finish_def fire_def resume_def waitForRateLimit_def
          Let_def minRequestInterval_def max_def)
    then show ?thesis by blast
  qed
qed

text \<open>
  C2. The claim: the requests of N calls of \<^verbatim>\<open>sendMessage\<close> made in rapid succession
  go out at least 3000 ms apart and in the order of the calls. Three calls made at the
  same instant 10000, on a service that has been idle: the first returns from
  \<^verbatim>\<open>waitForRateLimit\<close> at once and sets \<open>lastRequestTime\<close> to 10000; the second and
  the third both read that value, both set a timer of 3000 ms, and both return at
  13000. Their two requests go out at the same instant. The same happens when the
  calls come 1 ms apart. And when the three calls come 1 ms apart during a cooldown
  that ends at 70000, all three wake at 70000; the first returns, the other two
  compute their spacing wait from the \<open>now\<close> they read on entry, so the third call
  waits 1 ms less than the second and returns before it: at 132998 and 132999.
\<close>

theorem overlapping_calls_not_spaced:
  "run [Call 1, Call 2, Call 3, Timer, Timer]
       (\<lparr>clock = 10000, lastRequestTime = 0, quotaResetTime = 0\<rparr>, [], [])
     = Some (\<lparr>clock = 13000, lastRequestTime = 13000, quotaResetTime = 0\<rparr>, [],
             [(1, 10000), (2, 13000), (3, 13000)])
   \<and> \<not> spaced minRequestInterval [10000, 13000, 13000]
   \<and> run [Call 1, Elapse 1, Call 2, Elapse 1, Call 3, Timer, Timer]
       (\<lparr>clock = 10000, lastRequestTime = 0, quotaResetTime = 0\<rparr>, [], [])
     = Some (\<lparr>clock = 13000, lastRequestTime = 13000, quotaResetTime = 0\<rparr>, [],
             [(1, 10000), (2, 13000), (3, 13000)])
   \<and> run [Call 1, Elapse 1, Call 2, Elapse 1, Call 3, Timer, Timer, Timer, Timer, Timer]
       (\<lparr>clock = 10000, lastRequestTime = 0, quotaResetTime = 70000\<rparr>, [], [])
     = Some (\<lparr>clock = 132999, lastRequestTime = 132999, quotaResetTime = 0\<rparr>, [],
             [(1, 70000), (3, 132998), (2, 132999)])
   \<and> \<not> spaced minRequestInterval [70000, 132998, 132999]"
  by (simp add: enter_def spacing_def finish_def fire_def resume_def minRequestInterval_def
      Let_def)

section \<open>The tool handlers, branch by branch\<close>

text \<open>The branches of the \<^verbatim>\<open>switch\<close>, one by one.\<close>

lemma executeCall_logTransaction:
  "call_name call = ''logTransaction'' \<Longrightarrow>
   executeCall now call (w, acts) =
     (case withStore (\<lambda>io. addTransaction io now
              \<lparr>ti_amount = arg_amount (call_args call), ti_type = arg_type (call_args call),
               ti_category = arg_category (call_args call),
               ti_description = arg_description (call_args call),
               ti_date = Some now\<rparr>) w of
        (Inl e, w') \<Rightarrow> ((call_name call, caught e), w', acts)
      | (Inr rowId, w') \<Rightarrow>
          ((call_name call,
            TransactionLogged (arg_amount (call_args call)) (arg_category (call_args call))), w',
           acts @ [\<lparr>action_type = TransactionAction, action_data = call_args call,
                    executed = True\<rparr>]))"
  by (simp add: executeCall_def Let_def)

lemma executeCall_scheduleMeeting:
  "call_name call = ''scheduleMeeting'' \<Longrightarrow>
   executeCall now call (w, acts) =
     (case withStore (\<lambda>io. addSchedule io now
              \<lparr>si_title = arg_title (call_args call),
               si_description = Some (orEmpty (arg_description (call_args call))),
               si_date = parseDate w (arg_date (call_args call)),
               si_time = arg_time (call_args call),
               si_reminder = Some 15\<rparr>) w of
        (Inl e, w') \<Rightarrow> ((call_name call, caught e), w', acts)
      | (Inr rowId, w') \<Rightarrow>
          ((call_name call,
            MeetingScheduled (arg_title (call_args call)) (arg_date (call_args call))
              (arg_time (call_args call))), w',
           acts @ [\<lparr>action_type = ScheduleAction, action_data = call_args call,
                    executed = True\<rparr>]))"
  by (simp add: executeCall_def Let_def)

lemma executeCall_addJournalEntry:
  "call_name call = ''addJournalEntry'' \<Longrightarrow>
   executeCall now call (w, acts) =
     (case withStore (\<lambda>io. addJournalEntry io now
              \<lparr>ji_content = arg_content (call_args call), ji_mood = arg_mood (call_args call),
               ji_date = Some now\<rparr>) w of
        (Inl e, w') \<Rightarrow> ((call_name call, caught e), w', acts)
      | (Inr rowId, w') \<Rightarrow>
          ((call_name call, JournalSaved (arg_mood (call_args call))), w',
           acts @ [\<lparr>action_type = JournalAction, action_data = call_args call,
                    executed = True\<rparr>]))"
  by (simp add: executeCall_def Let_def)

lemma executeCall_getDailyQuote:
  "call_name call = ''getDailyQuote'' \<Longrightarrow>
   executeCall now call (w, acts) =
     ((call_name call, Text (fst (generateDailyQuote w))), snd (generateDailyQuote w), acts)"
  by (simp add: executeCall_def Let_def split: prod.split)

lemma executeCall_getUserFinances:
  "call_name call = ''getUserFinances'' \<Longrightarrow>
   executeCall now call (w, acts) =
     (case withStore getTransactions w of
        (Inl e, w') \<Rightarrow> ((call_name call, caught e), w', acts)
      | (Inr allTransactions, w') \<Rightarrow>
          ((call_name call,
            FinancesJson
              (sum_list (map t_amount (filter (\<lambda>t. t_type t = ''income'') allTransactions)))
              (sum_list (map t_amount (filter (\<lambda>t. t_type t = ''expense'') allTransactions)))
              (sum_list (map t_amount (filter (\<lambda>t. t_type t = ''income'') allTransactions))
               - sum_list (map t_amount (filter (\<lambda>t. t_type t = ''expense'') allTransactions)))
              (length allTransactions)), w', acts))"
  by (simp add: executeCall_def Let_def split: prod.split sum.split)

lemma executeCall_getUserSchedule:
  "call_name call = ''getUserSchedule'' \<Longrightarrow>
   executeCall now call (w, acts) =
     (case withStore getSchedules w of
        (Inl e, w') \<Rightarrow> ((call_name call, caught e), w', acts)
      | (Inr allSchedules, w') \<Rightarrow>
          ((call_name call,
            ScheduleJson (length (filter (\<lambda>s. s_date s > clock w') allSchedules))
              (length allSchedules) (take 5 allSchedules)), w', acts))"
  by (simp add: executeCall_def Let_def)

lemma executeCall_getUserJournals:
  "call_name call = ''getUserJournals'' \<Longrightarrow>
   executeCall now call (w, acts) =
     (case withStore getJournalEntries w of
        (Inl e, w') \<Rightarrow> ((call_name call, caught e), w', acts)
      | (Inr journals, w') \<Rightarrow>
          ((call_name call,
            JournalsJson (length journals) (moodCounts journals) (take 3 journals)),
           w', acts))"
  by (simp add: executeCall_def Let_def)

lemma executeCall_searchWeb:
  "call_name call = ''searchWeb'' \<Longrightarrow>
   executeCall now call (w, acts) =
     ((call_name call, Text (fst (performWebSearch (arg_query (call_args call)) w))),
      snd (performWebSearch (arg_query (call_args call)) w), acts)"
  by (simp add: executeCall_def Let_def split: prod.split)

lemma executeCall_default:
  "call_name call \<notin> set toolNames \<Longrightarrow>
   executeCall now call (w, acts) = ((call_name call, Text ''Unknown function''), w, acts)"
  by (simp add: executeCall_def toolNames_def Let_def)

lemma toolNames_cases:
  assumes "call_name call = ''logTransaction'' \<Longrightarrow> P"
    and "call_name call = ''scheduleMeeting'' \<Longrightarrow> P"
    and "call_name call = ''addJournalEntry'' \<Longrightarrow> P"
    and "call_name call = ''getDailyQuote'' \<Longrightarrow> P"
    and "call_name call = ''getUserFinances'' \<Longrightarrow> P"
    and "call_name call = ''getUserSchedule'' \<Longrightarrow> P"
    and "call_name call = ''getUserJournals'' \<Longrightarrow> P"
    and "call_name call = ''searchWeb'' \<Longrightarrow> P"
    and "call_name call \<notin> set toolNames \<Longrightarrow> P"
  shows P
  using assms unfolding toolNames_def by (metis list.set_intros(1,2) set_ConsD empty_iff empty_set)

text \<open>
  C9. A \<^verbatim>\<open>scheduleMeeting\<close> call that runs through (its result is the
  \<open>Meeting scheduled\<close> text) has appended one schedule row whose reminder is 15 and
  whose other fields come from the title, description, date and time arguments, and
  has appended one action of type schedule to the action log. A call that fails
  leaves the schedule table and the log as they were. The \<open>duration\<close> argument has
  no effect on the store.
\<close>

theorem scheduleMeeting_reminder:
  assumes "call_name call = ''scheduleMeeting''"
  shows "(case snd (fst (executeCall now call (w, acts))) of
            MeetingScheduled title date time \<Rightarrow>
              (\<exists>d. parseDate w (arg_date (call_args call)) = Some d \<and>
                 schedules (store (fst (snd (executeCall now call (w, acts))))) =
                   schedules (store w) @
                     [\<lparr>s_id = now, s_title = arg_title (call_args call),
                       s_description = orEmpty (arg_description (call_args call)),
                       s_date = d, s_time = arg_time (call_args call), s_reminder = 15\<rparr>]) \<and>
              snd (snd (executeCall now call (w, acts))) =
                acts @ [\<lparr>action_type = ScheduleAction, action_data = call_args call,
                         executed = True\<rparr>]
          | _ \<Rightarrow>
              schedules (store (fst (snd (executeCall now call (w, acts))))) = schedules (store w) \<and>
              snd (snd (executeCall now call (w, acts))) = acts)
       \<and> store (fst (snd (executeCall now
             (call\<lparr>call_args := (call_args call)\<lparr>arg_duration := minutes\<rparr>\<rparr>) (w, acts))))
           = store (fst (snd (executeCall now call (w, acts))))"
  using assms
  by (simp add: executeCall_scheduleMeeting withStore_def addSchedule_def Let_def caught_def
      orZero_def orEmpty_def split: option.split)

theorem scheduleMeeting_reminder_witness:
  "call_name \<lparr>call_name = ''scheduleMeeting'', call_args = sampleArgs\<rparr> = ''scheduleMeeting''
   \<and> schedules (store (fst (snd (executeCall 1700000000000
         \<lparr>call_name = ''scheduleMeeting'', call_args = sampleArgs\<rparr>
         (sampleWorld answersText, [])))))
       = schedules sampleLedger @
           [\<lparr>s_id = 1700000000000, s_title = ''Review'', s_description = ''lunch'',
             s_date = 1700438400000, s_time = ''14:00'', s_reminder = 15\<rparr>]
   \<and> snd (snd (executeCall 1700000000000
         \<lparr>call_name = ''scheduleMeeting'', call_args = sampleArgs\<rparr>
         (sampleWorld answersText, [])))
       = [\<lparr>action_type = ScheduleAction, action_data = sampleArgs, executed = True\<rparr>]"
proof -
  let ?call = "\<lparr>call_name = ''scheduleMeeting'', call_args = sampleArgs\<rparr>"
  have name: "call_name ?call = ''scheduleMeeting''" by simp
  have ran: "snd (fst (executeCall 1700000000000 ?call (sampleWorld answersText, [])))
               = MeetingScheduled ''Review'' ''2023-11-20'' ''14:00''"
    by (simp add: executeCall_scheduleMeeting withStore_def addSchedule_def Let_def
        sampleWorld_def sampleLedger_def sampleArgs_def)
  have date: "parseDate (sampleWorld answersText) (arg_date (call_args ?call))
                = Some 1700438400000"
    by (simp add: sampleWorld_def sampleArgs_def)
  have old: "store (sampleWorld answersText) = sampleLedger"
    by (simp add: sampleWorld_def)
  from scheduleMeeting_reminder [OF name, of 1700000000000 "sampleWorld answersText" "[]"]
    ran date old
  show ?thesis
    by (simp add: sampleArgs_def orEmpty_def)
qed

text \<open>The three summary handlers give the same result whatever the period.\<close>

lemma period_is_ignored:
  assumes "call_name call = ''getUserFinances'' \<or> call_name call = ''getUserSchedule'' \<or>
           call_name call = ''getUserJournals''"
  shows "executeCall now (call\<lparr>call_args := (call_args call)\<lparr>arg_period := p\<rparr>\<rparr>) (w, acts)
           = executeCall now call (w, acts)"
  using assms
  by (elim disjE)
    (simp_all add: executeCall_getUserFinances executeCall_getUserSchedule
      executeCall_getUserJournals split: prod.split sum.split)

text \<open>
  C5. The claim: the three summary tools compute their result over the records of
  the requested period. The handlers never read \<^verbatim>\<open>call.args.period\<close>: asked on
  2023-11-14 for \<open>today\<close>, they summarise the transactions, the schedule item and the
  journal entry of September 2020, as they do when asked for \<open>all\<close>.
\<close>

theorem summaries_ignore_period:
  "fst (executeCall 1700000000000
          \<lparr>call_name = ''getUserFinances'', call_args = sampleArgs\<lparr>arg_period := ''today''\<rparr>\<rparr>
          (sampleWorld answersText, []))
     = (''getUserFinances'', FinancesJson 900 500 400 2)
   \<and> fst (executeCall 1700000000000
          \<lparr>call_name = ''getUserFinances'', call_args = sampleArgs\<lparr>arg_period := ''all''\<rparr>\<rparr>
          (sampleWorld answersText, []))
     = (''getUserFinances'', FinancesJson 900 500 400 2)
   \<and> fst (executeCall 1700000000000
          \<lparr>call_name = ''getUserSchedule'', call_args = sampleArgs\<lparr>arg_period := ''today''\<rparr>\<rparr>
          (sampleWorld answersText, []))
     = (''getUserSchedule'', ScheduleJson 0 1
          [\<lparr>s_id = 1600000600000, s_title = ''Dentist'', s_description = '''',
            s_date = 1600041600000, s_time = ''10:30'', s_reminder = 15\<rparr>])
   \<and> fst (executeCall 1700000000000
          \<lparr>call_name = ''getUserJournals'', call_args = sampleArgs\<lparr>arg_period := ''today''\<rparr>\<rparr>
          (sampleWorld answersText, []))
     = (''getUserJournals'', JournalsJson 1 [(''calm'', 1)]
          [\<lparr>j_id = 1600000700000, j_content = ''Long day'', j_mood = ''calm'',
            j_date = 1600000700000\<rparr>])"
  by (simp add: executeCall_getUserFinances executeCall_getUserSchedule
      executeCall_getUserJournals withStore_def getTransactions_def getSchedules_def
      getJournalEntries_def moodCounts_def sampleWorld_def sampleLedger_def)

section \<open>A round of tool calls\<close>

lemma executeCall_name: "fst (fst (executeCall now call (w, acts))) = call_name call"
  by (rule toolNames_cases [of call])
    (simp_all add: executeCall_logTransaction executeCall_scheduleMeeting
      executeCall_addJournalEntry executeCall_getDailyQuote executeCall_getUserFinances
      executeCall_getUserSchedule executeCall_getUserJournals executeCall_searchWeb
      executeCall_default split: prod.split sum.split)

lemma executeCalls_names:
  "map fst (fst (executeCalls now calls (w, acts))) = map call_name calls"
proof (induction calls arbitrary: w acts)
  case Nil
  then show ?case by simp
next
  case (Cons call calls)
  obtain r w' acts' where one: "executeCall now call (w, acts) = (r, w', acts')"
    by (cases "executeCall now call (w, acts)") auto
  from executeCall_name [of now call w acts] one have "fst r = call_name call" by simp
  with one Cons.IH [of w' acts'] show ?case
    by (auto split: prod.split)
qed




section \<open>The quote cache\<close>

lemma generateDailyQuote_hit:
  "quoteCache w = Some (q, ts) \<Longrightarrow> clock w - ts < quoteCacheDuration \<Longrightarrow>
   generateDailyQuote w = (q, w)"
  by (simp add: generateDailyQuote_def)

lemma generateDailyQuote_miss:
  assumes "quoteCache w = None \<or>
           (\<exists>q ts. quoteCache w = Some (q, ts) \<and> \<not> clock w - ts < quoteCacheDuration)"
  shows "generateDailyQuote w =
           (case remote w (length (requests w)) of
              Reply quote calls \<Rightarrow>
                (quote, (snd (callRemote (GenerateContent quotePrompt) (waitForRateLimit w)))
                   \<lparr>quoteCache := Some (quote,
                      clock (snd (callRemote (GenerateContent quotePrompt) (waitForRateLimit w))))\<rparr>)
            | Failure errorMsg \<Rightarrow>
                (fallbackQuote, snd (callRemote (GenerateContent quotePrompt) (waitForRateLimit w))))"
proof -
  have r: "fst (callRemote (GenerateContent quotePrompt) (waitForRateLimit w))
             = remote w (length (requests w))"
    by (simp add: callRemote_def waitForRateLimit_def Let_def)
  from assms have "(case quoteCache w of
              Some (text, timestamp) \<Rightarrow>
                if clock w - timestamp < quoteCacheDuration then Some text else None
            | None \<Rightarrow> None) = None"
    by auto
  then show ?thesis
    unfolding generateDailyQuote_def
    by (simp add: Let_def r [symmetric] split: prod.split outcome.split)
qed

lemma callRemote_after_wait:
  "requests (snd (callRemote req (waitForRateLimit w)))
     = requests w @ [(clock (waitForRateLimit w), req)]"
  "quoteCache (snd (callRemote req (waitForRateLimit w))) = quoteCache w"
  by (simp_all add: callRemote_def waitForRateLimit_def Let_def)

text \<open>
  C7. A call that finds a cached quote younger than one hour returns it and leaves
  the whole state as it was: no request goes out. A call that finds no cached quote,
  or one that is an hour old or more, sends exactly one request, after the rate limiter
  let it through; if the model answers, the answer is returned and cached with the
  time of its arrival; if the request fails, the fixed fallback text is returned and
  the cache is left as it was. So when the first of two calls got its text from the
  cache or from the model, that text is in the cache, and a second call made from any
  later state with the same cache, less than an hour after the cache timestamp,
  returns the same text and sends nothing.
\<close>

theorem quote_cache:
  "(quoteCache w = Some (q, ts) \<and> clock w - ts < quoteCacheDuration \<longrightarrow>
      generateDailyQuote w = (q, w))
   \<and> (quoteCache w = None \<or>
       (\<exists>q ts. quoteCache w = Some (q, ts) \<and> \<not> clock w - ts < quoteCacheDuration) \<longrightarrow>
        requests (snd (generateDailyQuote w))
          = requests w @ [(clock (waitForRateLimit w), GenerateContent quotePrompt)]
        \<and> (case remote w (length (requests w)) of
             Reply quote calls \<Rightarrow>
               fst (generateDailyQuote w) = quote \<and>
               quoteCache (snd (generateDailyQuote w))
                 = Some (quote, clock (snd (generateDailyQuote w)))
           | Failure errorMsg \<Rightarrow>
               fst (generateDailyQuote w) = fallbackQuote \<and>
               quoteCache (snd (generateDailyQuote w)) = quoteCache w))
   \<and> ((\<exists>q ts. quoteCache w = Some (q, ts) \<and> clock w - ts < quoteCacheDuration) \<or>
       (\<exists>quote calls. remote w (length (requests w)) = Reply quote calls) \<longrightarrow>
        (\<exists>ts'. quoteCache (snd (generateDailyQuote w)) = Some (fst (generateDailyQuote w), ts')
           \<and> (\<forall>w2. quoteCache w2 = quoteCache (snd (generateDailyQuote w)) \<and>
                    clock w2 - ts' < quoteCacheDuration \<longrightarrow>
                    generateDailyQuote w2 = (fst (generateDailyQuote w), w2))))"
proof (intro conjI impI)
  assume "quoteCache w = Some (q, ts) \<and> clock w - ts < quoteCacheDuration"
  then show "generateDailyQuote w = (q, w)"
    by (simp add: generateDailyQuote_hit)
next
  assume miss: "quoteCache w = None \<or>
       (\<exists>q ts. quoteCache w = Some (q, ts) \<and> \<not> clock w - ts < quoteCacheDuration)"
  show "requests (snd (generateDailyQuote w))
          = requests w @ [(clock (waitForRateLimit w), GenerateContent quotePrompt)]"
    by (simp add: generateDailyQuote_miss [OF miss] callRemote_after_wait split: outcome.split)
  show "case remote w (length (requests w)) of
             Reply quote calls \<Rightarrow>
               fst (generateDailyQuote w) = quote \<and>
               quoteCache (snd (generateDailyQuote w))
                 = Some (quote, clock (snd (generateDailyQuote w)))
           | Failure errorMsg \<Rightarrow>
               fst (generateDailyQuote w) = fallbackQuote \<and>
               quoteCache (snd (generateDailyQuote w)) = quoteCache w"
    by (simp add: generateDailyQuote_miss [OF miss] callRemote_after_wait split: outcome.split)
next
  assume served: "(\<exists>q ts. quoteCache w = Some (q, ts) \<and> clock w - ts < quoteCacheDuration) \<or>
       (\<exists>quote calls. remote w (length (requests w)) = Reply quote calls)"
  have "\<exists>ts'. quoteCache (snd (generateDailyQuote w)) = Some (fst (generateDailyQuote w), ts')"
  proof (cases "\<exists>q ts. quoteCache w = Some (q, ts) \<and> clock w - ts < quoteCacheDuration")
    case True
    then obtain q ts where "quoteCache w = Some (q, ts)" "clock w - ts < quoteCacheDuration"
      by blast
    then show ?thesis by (simp add: generateDailyQuote_hit)
  next
    case False
    with served obtain quote calls where ok: "remote w (length (requests w)) = Reply quote calls"
      by blast
    from False have miss: "quoteCache w = None \<or>
       (\<exists>q ts. quoteCache w = Some (q, ts) \<and> \<not> clock w - ts < quoteCacheDuration)"
      by (cases "quoteCache w") auto
    show ?thesis
      by (simp add: generateDailyQuote_miss [OF miss] ok)
  qed
  then obtain ts' where
    c: "quoteCache (snd (generateDailyQuote w)) = Some (fst (generateDailyQuote w), ts')" ..
  have "\<forall>w2. quoteCache w2 = quoteCache (snd (generateDailyQuote w)) \<and>
                    clock w2 - ts' < quoteCacheDuration \<longrightarrow>
                    generateDailyQuote w2 = (fst (generateDailyQuote w), w2)"
    using c by (simp add: generateDailyQuote_hit)
  with c show "\<exists>ts'. quoteCache (snd (generateDailyQuote w)) = Some (fst (generateDailyQuote w), ts')
           \<and> (\<forall>w2. quoteCache w2 = quoteCache (snd (generateDailyQuote w)) \<and>
                    clock w2 - ts' < quoteCacheDuration \<longrightarrow>
                    generateDailyQuote w2 = (fst (generateDailyQuote w), w2))"
    by blast
qed

theorem quote_cache_witness:
  "quoteCache (sampleWorld answersText) = None
   \<and> fst (generateDailyQuote (sampleWorld answersText)) = ''Rise and shine.''
   \<and> quoteCache (snd (generateDailyQuote (sampleWorld answersText)))
       = Some (''Rise and shine.'', 1700000000800)
   \<and> length (requests (snd (generateDailyQuote (sampleWorld answersText)))) = 1
   \<and> generateDailyQuote ((snd (generateDailyQuote (sampleWorld answersText)))
         \<lparr>clock := 1700003000000\<rparr>)
       = (''Rise and shine.'',
          (snd (generateDailyQuote (sampleWorld answersText)))\<lparr>clock := 1700003000000\<rparr>)
   \<and> length (requests (snd (generateDailyQuote
         ((snd (generateDailyQuote (sampleWorld answersText)))\<lparr>clock := 1700003600800\<rparr>)))) = 2"
proof -
  let ?w = "sampleWorld answersText"
  let ?w1 = "snd (generateDailyQuote ?w)"
  have empty: "quoteCache ?w = None" by (simp add: sampleWorld_def)
  have answer: "remote ?w (length (requests ?w)) = Reply ''Rise and shine.'' []"
    by (simp add: sampleWorld_def answersText_def)
  have arrives: "clock (snd (callRemote (GenerateContent quotePrompt) (waitForRateLimit ?w)))
                   = 1700000000800"
    by (simp add: callRemote_def waitForRateLimit_def Let_def sampleWorld_def
        minRequestInterval_def)
  from quote_cache [of ?w] empty answer
  have first: "fst (generateDailyQuote ?w) = ''Rise and shine.''"
    and cached: "quoteCache ?w1 = Some (''Rise and shine.'', clock ?w1)"
    and sent: "requests ?w1
                 = requests ?w @ [(clock (waitForRateLimit ?w), GenerateContent quotePrompt)]"
    by simp_all
  have at: "clock ?w1 = 1700000000800"
    using arrives by (simp add: generateDailyQuote_miss empty answer)
  have one: "length (requests ?w1) = 1"
    using sent by (simp add: sampleWorld_def)
  have again: "generateDailyQuote (?w1\<lparr>clock := 1700003000000\<rparr>)
                 = (''Rise and shine.'', ?w1\<lparr>clock := 1700003000000\<rparr>)"
    using quote_cache [of "?w1\<lparr>clock := 1700003000000\<rparr>" "''Rise and shine.''" 1700000000800]
      cached at
    by (simp add: quoteCacheDuration_def)
  have "requests (snd (generateDailyQuote (?w1\<lparr>clock := 1700003600800\<rparr>)))
          = requests (?w1\<lparr>clock := 1700003600800\<rparr>) @
              [(clock (waitForRateLimit (?w1\<lparr>clock := 1700003600800\<rparr>)),
                GenerateContent quotePrompt)]"
    using quote_cache [of "?w1\<lparr>clock := 1700003600800\<rparr>"] cached at
    by (simp add: quoteCacheDuration_def)
  with one have two: "length (requests (snd (generateDailyQuote
                         (?w1\<lparr>clock := 1700003600800\<rparr>)))) = 2"
    by simp
  from empty first cached at one again two show ?thesis by simp
qed

section \<open>sendMessage\<close>

subsection \<open>What a round leaves alone\<close>

lemma waitForRateLimit_world [simp]:
  "remote (waitForRateLimit w) = remote w"
  "store (waitForRateLimit w) = store w"
  "requests (waitForRateLimit w) = requests w"
  by (simp_all add: waitForRateLimit_def Let_def)

lemma callRemote_world [simp]:
  "fst (callRemote req w) = remote w (length (requests w))"
  "remote (snd (callRemote req w)) = remote w"
  "store (snd (callRemote req w)) = store w"
  "requests (snd (callRemote req w)) = requests w @ [(clock w, req)]"
  by (simp_all add: callRemote_def Let_def)

lemma withStore_world [simp]:
  "remote (snd (withStore operation w)) = remote w"
  "requests (snd (withStore operation w)) = requests w"
  by (simp_all add: withStore_def Let_def case_prod_beta)

lemma generateDailyQuote_world [simp]:
  "remote (snd (generateDailyQuote w)) = remote w"
  "store (snd (generateDailyQuote w)) = store w"
  by (simp_all add: generateDailyQuote_def Let_def case_prod_beta
      split: option.split outcome.split)

lemma performWebSearch_world [simp]:
  "remote (snd (performWebSearch query w)) = remote w"
  "store (snd (performWebSearch query w)) = store w"
  by (simp_all add: performWebSearch_def Let_def case_prod_beta
      split: option.split outcome.split)

lemma executeCall_remote: "remote (fst (snd (executeCall now call (w, acts)))) = remote w"
proof (rule toolNames_cases [of call])
  assume "call_name call = ''logTransaction''"
  then show ?thesis
    by (simp add: executeCall_logTransaction case_prod_beta split: sum.split)
next
  assume "call_name call = ''scheduleMeeting''"
  then show ?thesis
    by (simp add: executeCall_scheduleMeeting case_prod_beta split: sum.split)
next
  assume "call_name call = ''addJournalEntry''"
  then show ?thesis
    by (simp add: executeCall_addJournalEntry case_prod_beta split: sum.split)
next
  assume "call_name call = ''getDailyQuote''"
  then show ?thesis by (simp add: executeCall_getDailyQuote)
next
  assume "call_name call = ''getUserFinances''"
  then show ?thesis
    by (simp add: executeCall_getUserFinances case_prod_beta split: sum.split)
next
  assume "call_name call = ''getUserSchedule''"
  then show ?thesis
    by (simp add: executeCall_getUserSchedule case_prod_beta split: sum.split)
next
  assume "call_name call = ''getUserJournals''"
  then show ?thesis
    by (simp add: executeCall_getUserJournals case_prod_beta split: sum.split)
next
  assume "call_name call = ''searchWeb''"
  then show ?thesis by (simp add: executeCall_searchWeb)
next
  assume "call_name call \<notin> set toolNames"
  then show ?thesis by (simp add: executeCall_default)
qed

lemma executeCalls_remote: "remote (fst (snd (executeCalls now calls (w, acts)))) = remote w"
proof (induction calls arbitrary: w acts)
  case Nil
  then show ?case by simp
next
  case (Cons call calls)
  obtain r w' acts' where one: "executeCall now call (w, acts) = (r, w', acts')"
    by (cases "executeCall now call (w, acts)") auto
  from executeCall_remote [of now call w acts] one have "remote w' = remote w" by simp
  with one Cons.IH [of w' acts'] show ?case
    by (auto split: prod.split)
qed

subsection \<open>The bound on the rounds\<close>

text \<open>
  The bound only cuts runs short: a run that ends within the bound ends the same way
  under any larger bound.
\<close>

lemma agenticLoop_more_fuel:
  "agenticLoop fuel response w acts = Some x \<Longrightarrow>
   agenticLoop (Suc fuel) response w acts = Some x"
proof (induction fuel response w acts rule: agenticLoop.induct)
  case (1 fuel msg w acts)
  then show ?case by simp
next
  case (2 fuel replyText w acts)
  then show ?case by simp
next
  case (3 replyText call calls w acts)
  then show ?case by simp
next
  case (4 fuel replyText call calls w acts)
  obtain results w1 acts1 where
    round: "executeCalls (clock w) (call # calls) (w, acts) = (results, w1, acts1)"
    by (cases "executeCalls (clock w) (call # calls) (w, acts)") auto
  obtain response w2 where sent: "callRemote (ChatFollowUp results) w1 = (response, w2)"
    by (cases "callRemote (ChatFollowUp results) w1") auto
  from "4.prems" round sent
  have rest: "agenticLoop fuel response w2 acts1 = Some x" by simp
  from "4.IH" [OF refl round [symmetric] refl refl sent [symmetric] rest]
  have "agenticLoop (Suc fuel) response w2 acts1 = Some x" .
  with round sent show ?case by simp
qed

lemma sendMessage_more_fuel:
  assumes "sendMessage fuel userMessage persona conversationHistory w = Some x"
  shows "sendMessage (fuel + k) userMessage persona conversationHistory w = Some x"
proof (induction k)
  case 0
  from assms show ?case by simp
next
  case (Suc k)
  let ?req = "ChatStart persona (normalizeHistory conversationHistory) userMessage"
  let ?w2 = "snd (callRemote ?req (waitForRateLimit w))"
  let ?resp = "remote w (length (requests w))"
  have unfold: "tryBlock n userMessage persona conversationHistory w
                  = agenticLoop n ?resp ?w2 []" for n
    by (simp add: tryBlock_def Let_def case_prod_beta)
  from Suc obtain y where y: "agenticLoop (fuel + k) ?resp ?w2 [] = Some y"
    by (auto simp: sendMessage_def unfold split: option.splits)
  from agenticLoop_more_fuel [OF y]
  have "agenticLoop (fuel + Suc k) ?resp ?w2 [] = agenticLoop (fuel + k) ?resp ?w2 []"
    using y by simp
  with Suc show ?case by (simp add: sendMessage_def unfold)
qed

subsection \<open>Where the error of the try block comes from\<close>

lemma agenticLoop_throws:
  "agenticLoop fuel response w acts = Some (Inl (errorMsg, acts'), w') \<Longrightarrow>
   remote w' = remote w \<and>
   ((response = Failure errorMsg \<and> w' = w) \<or>
    (\<exists>before t results. requests w' = before @ [(t, ChatFollowUp results)] \<and>
        remote w (length before) = Failure errorMsg))"
proof (induction fuel response w acts rule: agenticLoop.induct)
  case (1 fuel msg w acts)
  then show ?case by simp
next
  case (2 fuel replyText w acts)
  then show ?case by simp
next
  case (3 replyText call calls w acts)
  then show ?case by simp
next
  case (4 fuel replyText call calls w acts)
  obtain results w1 acts1 where
    round: "executeCalls (clock w) (call # calls) (w, acts) = (results, w1, acts1)"
    by (cases "executeCalls (clock w) (call # calls) (w, acts)") auto
  obtain response w2 where sent: "callRemote (ChatFollowUp results) w1 = (response, w2)"
    by (cases "callRemote (ChatFollowUp results) w1") auto
  from executeCalls_remote [of "clock w" "call # calls" w acts] round
  have r1: "remote w1 = remote w" by simp
  from sent have resp: "response = remote w1 (length (requests w1))"
    and r2: "remote w2 = remote w1"
    and q2: "requests w2 = requests w1 @ [(clock w1, ChatFollowUp results)]"
    using callRemote_world [of "ChatFollowUp results" w1] by simp_all
  from "4.prems" round sent
  have rest: "agenticLoop fuel response w2 acts1 = Some (Inl (errorMsg, acts'), w')"
    by simp
  from "4.IH" [OF refl round [symmetric] refl refl sent [symmetric] rest]
  have ih: "remote w' = remote w2 \<and>
     ((response = Failure errorMsg \<and> w' = w2) \<or>
      (\<exists>before t results. requests w' = before @ [(t, ChatFollowUp results)] \<and>
          remote w2 (length before) = Failure errorMsg))" .
  from ih r1 r2 resp q2 show ?case by auto
qed

lemma tryBlock_throws:
  assumes "tryBlock fuel userMessage persona conversationHistory w
             = Some (Inl (errorMsg, acts), w')"
  shows "\<exists>before t req. requests w' = before @ [(t, req)] \<and>
           remote w (length before) = Failure errorMsg \<and>
           (\<forall>prompt. req \<noteq> GenerateContent prompt)"
proof -
  let ?req = "ChatStart persona (normalizeHistory conversationHistory) userMessage"
  let ?w1 = "waitForRateLimit w"
  let ?w2 = "snd (callRemote ?req ?w1)"
  from assms have loop: "agenticLoop fuel (remote w (length (requests w))) ?w2 []
                           = Some (Inl (errorMsg, acts), w')"
    by (simp add: tryBlock_def Let_def case_prod_beta)
  from agenticLoop_throws [OF loop]
  consider (first) "remote w (length (requests w)) = Failure errorMsg" "w' = ?w2"
    | (later) before t results where "requests w' = before @ [(t, ChatFollowUp results)]"
        "remote ?w2 (length before) = Failure errorMsg"
    by blast
  then show ?thesis
  proof cases
    case first
    then have "requests w' = requests w @ [(clock ?w1, ?req)]" by simp
    with first(1) show ?thesis by blast
  next
    case later
    then show ?thesis by auto
  qed
qed


subsection \<open>Rows written against actions recorded\<close>

lemma extends_iff: "extends old new \<longleftrightarrow> (\<exists>ys. new = old @ ys)"
proof
  assume "extends old new"
  then have "new = old @ drop (length old) new"
    by (metis append_take_drop_id extends_def)
  then show "\<exists>ys. new = old @ ys" ..
next
  assume "\<exists>ys. new = old @ ys"
  then show "extends old new" by (auto simp: extends_def)
qed

lemma extends_refl [simp]: "extends xs xs"
  by (simp add: extends_def)

lemma extends_append [simp]: "extends xs (xs @ ys)"
  by (simp add: extends_def)

lemma extends_trans: "extends a b \<Longrightarrow> extends b c \<Longrightarrow> extends a c"
  by (auto simp: extends_iff)

lemma countActions_append [simp]:
  "countActions k (as @ bs) = countActions k as + countActions k bs"
  by (simp add: countActions_def)

lemma accounted_refl: "accounted (w, acts) (w, acts)"
  by (simp add: accounted_def)

lemma accounted_same_store: "store w' = store w \<Longrightarrow> accounted (w, acts) (w', acts)"
  by (simp add: accounted_def)

lemma accounted_trans:
  assumes "accounted (w1, a1) (w2, a2)" and "accounted (w2, a2) (w3, a3)"
  shows "accounted (w1, a1) (w3, a3)"
proof -
  from assms have e: "extends a1 a3"
    "extends (transactions (store w1)) (transactions (store w3))"
    "extends (schedules (store w1)) (schedules (store w3))"
    "extends (journal_entries (store w1)) (journal_entries (store w3))"
    by (auto simp: accounted_def intro: extends_trans)
  from assms have n:
    "length (transactions (store w3)) + countActions TransactionAction a1
       = length (transactions (store w1)) + countActions TransactionAction a3"
    "length (schedules (store w3)) + countActions ScheduleAction a1
       = length (schedules (store w1)) + countActions ScheduleAction a3"
    "length (journal_entries (store w3)) + countActions JournalAction a1
       = length (journal_entries (store w1)) + countActions JournalAction a3"
    by (simp_all add: accounted_def)
  from e n show ?thesis by (simp add: accounted_def)
qed

lemma withStore_store:
  "store (snd (withStore operation w)) = snd (operation (driver w (driverCalls w)) (store w))"
  "fst (withStore operation w) = fst (operation (driver w (driverCalls w)) (store w))"
  by (simp_all add: withStore_def case_prod_beta)

lemma addTransaction_effect:
  "(case fst (addTransaction io now tx d) of
      Inl e \<Rightarrow> snd (addTransaction io now tx d) = d
    | Inr rowId \<Rightarrow> (\<exists>row. snd (addTransaction io now tx d)
                             = d\<lparr>transactions := transactions d @ [row]\<rparr>))"
  by (auto simp: addTransaction_def Let_def split: option.split)

lemma addSchedule_effect:
  "(case fst (addSchedule io now sc d) of
      Inl e \<Rightarrow> snd (addSchedule io now sc d) = d
    | Inr rowId \<Rightarrow> (\<exists>row. snd (addSchedule io now sc d)
                             = d\<lparr>schedules := schedules d @ [row]\<rparr>))"
  by (auto simp: addSchedule_def Let_def split: option.split)

lemma addJournalEntry_effect:
  "(case fst (addJournalEntry io now en d) of
      Inl e \<Rightarrow> snd (addJournalEntry io now en d) = d
    | Inr rowId \<Rightarrow> (\<exists>row. snd (addJournalEntry io now en d)
                             = d\<lparr>journal_entries := journal_entries d @ [row]\<rparr>))"
  by (auto simp: addJournalEntry_def Let_def split: option.split)

lemma get_effect:
  "snd (getTransactions io d) = d"
  "snd (getSchedules io d) = d"
  "snd (getJournalEntries io d) = d"
  by (simp_all add: getTransactions_def getSchedules_def getJournalEntries_def
      split: option.split)

lemma executeCall_accounted:
  "accounted (w, acts) (snd (executeCall now call (w, acts)))"
proof (rule toolNames_cases [of call])
  assume name: "call_name call = ''logTransaction''"
  let ?tx = "\<lparr>ti_amount = arg_amount (call_args call), ti_type = arg_type (call_args call),
               ti_category = arg_category (call_args call),
               ti_description = arg_description (call_args call), ti_date = Some now\<rparr>"
  from addTransaction_effect [of "driver w (driverCalls w)" now ?tx "store w"] name
  show ?thesis
    by (auto simp: executeCall_logTransaction case_prod_beta withStore_store accounted_def
        countActions_def split: sum.splits)
next
  assume name: "call_name call = ''scheduleMeeting''"
  let ?sc = "\<lparr>si_title = arg_title (call_args call),
               si_description = Some (orEmpty (arg_description (call_args call))),
               si_date = parseDate w (arg_date (call_args call)),
               si_time = arg_time (call_args call), si_reminder = Some 15\<rparr>"
  from addSchedule_effect [of "driver w (driverCalls w)" now ?sc "store w"] name
  show ?thesis
    by (auto simp: executeCall_scheduleMeeting case_prod_beta withStore_store accounted_def
        countActions_def split: sum.splits)
next
  assume name: "call_name call = ''addJournalEntry''"
  let ?en = "\<lparr>ji_content = arg_content (call_args call), ji_mood = arg_mood (call_args call),
               ji_date = Some now\<rparr>"
  from addJournalEntry_effect [of "driver w (driverCalls w)" now ?en "store w"] name
  show ?thesis
    by (auto simp: executeCall_addJournalEntry case_prod_beta withStore_store accounted_def
        countActions_def split: sum.splits)
next
  assume "call_name call = ''getDailyQuote''"
  then show ?thesis
    by (simp add: executeCall_getDailyQuote accounted_same_store)
next
  assume "call_name call = ''getUserFinances''"
  then show ?thesis
    by (simp add: executeCall_getUserFinances case_prod_beta withStore_store get_effect
        accounted_same_store split: sum.split)
next
  assume "call_name call = ''getUserSchedule''"
  then show ?thesis
    by (simp add: executeCall_getUserSchedule case_prod_beta withStore_store get_effect
        accounted_same_store split: sum.split)
next
  assume "call_name call = ''getUserJournals''"
  then show ?thesis
    by (simp add: executeCall_getUserJournals case_prod_beta withStore_store get_effect
        accounted_same_store split: sum.split)
next
  assume "call_name call = ''searchWeb''"
  then show ?thesis
    by (simp add: executeCall_searchWeb accounted_same_store)
next
  assume "call_name call \<notin> set toolNames"
  then show ?thesis
    by (simp add: executeCall_default accounted_refl)
qed

lemma executeCalls_accounted:
  "accounted (w, acts) (snd (executeCalls now calls (w, acts)))"
proof (induction calls arbitrary: w acts)
  case Nil
  then show ?case by (simp add: accounted_refl)
next
  case (Cons call calls)
  obtain r w' acts' where one: "executeCall now call (w, acts) = (r, w', acts')"
    by (cases "executeCall now call (w, acts)") auto
  obtain rs w'' acts'' where more: "executeCalls now calls (w', acts') = (rs, w'', acts'')"
    by (cases "executeCalls now calls (w', acts')") auto
  from executeCall_accounted [of w acts now call] one
  have a1: "accounted (w, acts) (w', acts')" by simp
  from Cons.IH [of w' acts'] more
  have a2: "accounted (w', acts') (w'', acts'')" by simp
  from one more accounted_trans [OF a1 a2] show ?case by simp
qed

lemma agenticLoop_accounted:
  "agenticLoop fuel response w acts = Some (r, w') \<Longrightarrow> accounted (w, acts) (w', actionsOf r)"
proof (induction fuel response w acts rule: agenticLoop.induct)
  case (1 fuel msg w acts)
  then show ?case by (auto simp: accounted_refl)
next
  case (2 fuel replyText w acts)
  then show ?case by (auto simp: accounted_refl)
next
  case (3 replyText call calls w acts)
  then show ?case by simp
next
  case (4 fuel replyText call calls w acts)
  obtain results w1 acts1 where
    round: "executeCalls (clock w) (call # calls) (w, acts) = (results, w1, acts1)"
    by (cases "executeCalls (clock w) (call # calls) (w, acts)") auto
  obtain response w2 where sent: "callRemote (ChatFollowUp results) w1 = (response, w2)"
    by (cases "callRemote (ChatFollowUp results) w1") auto
  from executeCalls_accounted [of w acts "clock w" "call # calls"] round
  have a1: "accounted (w, acts) (w1, acts1)" by simp
  from sent callRemote_world(3) [of "ChatFollowUp results" w1]
  have "store w2 = store w1" by simp
  then have a2: "accounted (w1, acts1) (w2, acts1)" by (rule accounted_same_store)
  from "4.prems" round sent
  have rest: "agenticLoop fuel response w2 acts1 = Some (r, w')" by simp
  from "4.IH" [OF refl round [symmetric] refl refl sent [symmetric] rest]
  have a3: "accounted (w2, acts1) (w', actionsOf r)" .
  from accounted_trans [OF accounted_trans [OF a1 a2] a3] show ?case .
qed

lemma tryBlock_accounted:
  assumes "tryBlock fuel userMessage persona conversationHistory w = Some (r, w')"
  shows "accounted (w, []) (w', actionsOf r)"
proof -
  let ?req = "ChatStart persona (normalizeHistory conversationHistory) userMessage"
  let ?w2 = "snd (callRemote ?req (waitForRateLimit w))"
  from assms have "agenticLoop fuel (remote w (length (requests w))) ?w2 [] = Some (r, w')"
    by (simp add: tryBlock_def Let_def case_prod_beta)
  then have "accounted (?w2, []) (w', actionsOf r)" by (rule agenticLoop_accounted)
  moreover have "accounted (w, []) (?w2, [])"
    by (rule accounted_same_store) simp
  ultimately show ?thesis by (rule accounted_trans [rotated])
qed


subsection \<open>A run that fails in its second round\<close>

text \<open>
  On the sample world the model first asks for a transaction to be logged, then
  answers the follow-up request with a quota error. The try block ends in that error
  1600 ms after the start, with one action executed and one row written.
\<close>

lemma sample_run:
  "\<exists>w'. tryBlock 2 ''log lunch'' ''GENERAL'' [] (sampleWorld failsSecond)
           = Some (Inl (''[429 Too Many Requests] RESOURCE_EXHAUSTED'',
                        [\<lparr>action_type = TransactionAction, action_data = sampleArgs,
                          executed = True\<rparr>]), w')
         \<and> clock w' = 1700000001600
         \<and> transactions (store w') = transactions sampleLedger @
              [\<lparr>t_id = 1700000000800, t_amount = 250, t_type = ''expense'',
                t_category = ''Food'', t_description = ''lunch'', t_date = 1700000000800\<rparr>]"
  by (simp add: tryBlock_def callRemote_def waitForRateLimit_def minRequestInterval_def
      normalizeHistory_def executeCall_logTransaction withStore_def addTransaction_def
      orEmpty_def sampleWorld_def failsSecond_def sampleLedger_def sampleArgs_def Let_def
      numeral_2_eq_2)

lemma sample_error_is_quota: "isQuotaError ''[429 Too Many Requests] RESOURCE_EXHAUSTED''"
  by (simp add: isQuotaError_def)



end
